theory Spec2Isabelle
  imports Complex_Main "HOL-Library.Sublist"
begin

section \<open>Strings\<close>

text \<open>
  A JavaScript string is a sequence of UTF-16 code units. The model covers the strings
  whose code units are all below 256 (the Latin-1 range, which holds ASCII): each code
  unit is a \<^typ>\<open>char\<close>, read as its number by \<^term>\<open>of_char\<close>. On that range
  \<open>toLowerCase\<close> works unit by unit and stays inside the range, and the regular
  expression class \<open>\s\<close> holds TAB, LF, VT, FF, CR, SPACE and NO-BREAK SPACE (160).
\<close>

definition isWhiteSpace :: "char \<Rightarrow> bool" where
  "isWhiteSpace c =
     (let n = (of_char c :: nat) in (9 \<le> n \<and> n \<le> 13) \<or> n = 32 \<or> n = 160)"

definition toLowerCaseUnit :: "char \<Rightarrow> char" where
  "toLowerCaseUnit c =
     (let n = (of_char c :: nat) in
      if (65 \<le> n \<and> n \<le> 90) \<or> (192 \<le> n \<and> n \<le> 214) \<or> (216 \<le> n \<and> n \<le> 222)
      then char_of (n + 32) else c)"

definition toLowerCase :: "string \<Rightarrow> string" where
  "toLowerCase s = map toLowerCaseUnit s"

text \<open>\<^verbatim>\<open>s.replace(/\s/g, '')\<close>: every white-space unit is dropped.\<close>

definition removeWhiteSpace :: "string \<Rightarrow> string" where
  "removeWhiteSpace s = filter (\<lambda>c. \<not> isWhiteSpace c) s"

text \<open>The class \<^verbatim>\<open>[a-z0-9]\<close>; \<^verbatim>\<open>s.replace(/[^a-z0-9]/g, '')\<close> keeps exactly its members.\<close>

definition isLowerAlnum :: "char \<Rightarrow> bool" where
  "isLowerAlnum c =
     (let n = (of_char c :: nat) in (97 \<le> n \<and> n \<le> 122) \<or> (48 \<le> n \<and> n \<le> 57))"

definition keepLowerAlnum :: "string \<Rightarrow> string" where
  "keepLowerAlnum s = filter isLowerAlnum s"

text \<open>
  \<^verbatim>\<open>t.includes(s)\<close>: \<open>s\<close> occurs in \<open>t\<close> at some position, found by trying every
  start position from the left.
\<close>

fun str_includes :: "string \<Rightarrow> string \<Rightarrow> bool" where
  "str_includes [] s = (s = [])"
| "str_includes (c # t) s = (prefix s (c # t) \<or> str_includes t s)"

section \<open>Name normalisation\<close>

definition normalizeBrandName :: "string \<Rightarrow> string" where
  "normalizeBrandName text = removeWhiteSpace (toLowerCase text)"

definition normalizeBranchName :: "string \<Rightarrow> string" where
  "normalizeBranchName text = keepLowerAlnum (toLowerCase text)"

section \<open>The geo grid\<close>

text \<open>
  JavaScript numbers are IEEE doubles; the coordinates are modelled as real numbers, so
  the theorems about them speak of the formulas and of the layout of the grid, not of
  rounding. \<open>gridSize\<close> is an integer: a negative one gives no point, as the loops'
  guards \<^verbatim>\<open>i < gridSize\<close> do.
\<close>

record geo_point =
  lat :: real
  lng :: real

definition generateGeoGrid :: "real \<Rightarrow> real \<Rightarrow> real \<Rightarrow> int \<Rightarrow> geo_point list" where
  "generateGeoGrid centerLat centerLng radiusKm gridSize =
     (let kmPerDegreeLat = 111.32;
          kmPerDegreeLng = 111.32 * cos (centerLat * pi / 180);
          latStep = (radiusKm * 2) / real_of_int (gridSize - 1) / kmPerDegreeLat;
          lngStep = (radiusKm * 2) / real_of_int (gridSize - 1) / kmPerDegreeLng
      in concat (map (\<lambda>i. map (\<lambda>j.
           \<lparr>lat = centerLat - radiusKm / kmPerDegreeLat + (real i * latStep),
            lng = centerLng - radiusKm / kmPerDegreeLng + (real j * lngStep)\<rparr>)
           [0..<nat gridSize]) [0..<nat gridSize]))"

section \<open>The search page fetcher\<close>

text \<open>
  A listing as the upstream returns it (the fields the handlers read or store), and the
  body of one request. \<open>ll\<close> is the location bias, set when both coordinates are given.
\<close>

record place =
  title :: "string option"
  address :: "string option"
  rating :: "real option"
  category :: "string option"

record payload =
  q :: string
  payload_gl :: string
  payload_hl :: string
  payload_page :: nat
  device :: string
  ll :: "(real \<times> real) option"

text \<open>
  What one call of \<^verbatim>\<open>fetch\<close> gives: the promise rejects, or it resolves to a response
  with \<open>ok\<close>, \<open>status\<close> and \<open>statusText\<close>, whose \<^verbatim>\<open>json()\<close> rejects (\<open>None\<close>) or
  gives an object whose \<open>places\<close> is missing (\<open>Some None\<close>) or an array.
\<close>

record response =
  ok :: bool
  status :: nat
  statusText :: string
  json :: "place list option option"

datatype transport = Rejected | Resolved response

datatype fetch_error =
    ApiKeyNotConfigured
  | SerperApiError nat string
  | FetchRejected
  | JsonRejected

text \<open>
  \<open>searchSerperPlaces\<close> returns the requests it sent upstream (none or one) beside
  its result: \<open>Inl\<close> is the error thrown, \<open>Inr\<close> the parsed body. \<^verbatim>\<open>!apiKey\<close> holds
  for an unset and for an empty variable.
\<close>

definition searchSerperPlaces ::
  "string option \<Rightarrow> (payload \<Rightarrow> transport) \<Rightarrow> string \<Rightarrow> string \<Rightarrow> string \<Rightarrow> nat \<Rightarrow> string \<Rightarrow>
   real option \<Rightarrow> real option \<Rightarrow> payload list \<times> (fetch_error + place list option)" where
  "searchSerperPlaces apiKey upstream query gl hl page deviceType searchLat searchLng =
     (if apiKey = None \<or> apiKey = Some [] then ([], Inl ApiKeyNotConfigured)
      else
        let payload = \<lparr>q = query, payload_gl = gl, payload_hl = hl, payload_page = page,
                        device = deviceType,
                        ll = (case (searchLat, searchLng) of
                                (Some la, Some lo) \<Rightarrow> Some (la, lo)
                              | _ \<Rightarrow> None)\<rparr>
        in (case upstream payload of
              Rejected \<Rightarrow> ([payload], Inl FetchRejected)
            | Resolved r \<Rightarrow>
                if \<not> ok r then ([payload], Inl (SerperApiError (status r) (statusText r)))
                else (case json r of
                        None \<Rightarrow> ([payload], Inl JsonRejected)
                      | Some data \<Rightarrow> ([payload], Inr data))))"

section \<open>The request handler: rows, grid points, pages, listings\<close>

text \<open>
  The loop of \<^verbatim>\<open>/api/process-csv-stream\<close> over the rows, the grid points, the pages
  and the listings; \<^verbatim>\<open>/api/process-csv\<close> and \<^verbatim>\<open>/api/campaigns/:id/rerun\<close> run the
  same loop. The progress events, the log lines and the one-second pause between two
  pages change none of the handler's variables and are left out.
\<close>

text \<open>
  The rows of the parsed CSV, the options of a request and the grid configuration. A
  missing or zero \<open>radiusKm\<close> or \<open>gridSize\<close> takes the handler's default
  (\<^verbatim>\<open>radiusKm || 5\<close>, \<^verbatim>\<open>gridSize || 3\<close>).
\<close>

record query_row =
  Keywords :: string
  Brand :: string
  Branch :: string

record geo_grid_config =
  centerLat :: real
  centerLng :: real
  radiusKm :: "real option"
  gridSize :: "int option"

record request_options =
  gl :: string
  hl :: string
  deviceType :: string
  geoGridEnabled :: bool
  geoGridConfig :: "geo_grid_config option"

text \<open>
  The environment of a run: the API key, and the upstream service, whose answer may
  depend on how many calls of the fetcher came before (it changes over time).
\<close>

record environment =
  apiKey :: "string option"
  upstream :: "nat \<Rightarrow> payload \<Rightarrow> transport"

text \<open>
  An element of \<open>allResults\<close>: the listing's own fields (the spread \<^verbatim>\<open>...place\<close>) and
  the fields the handler adds. \<open>query_result_number\<close> is a number or the string
  \<^verbatim>\<open>'N/A'\<close>; a field the object literal does not set is \<open>None\<close>, and
  \<open>local_pack_position\<close> may also be set to \<^verbatim>\<open>null\<close>.
\<close>

datatype rank = Rank nat | NA

datatype 'a nullable = Null | Value 'a

record place_result = place +
  query :: string
  brand :: string
  branch :: string
  query_result_number :: rank
  brand_match :: bool
  is_local_pack :: "bool option"
  local_pack_position :: "nat nullable option"
  device_type :: "string option"
  search_latitude :: "real option"
  search_longitude :: "real option"
  local_ranking :: "string option"

text \<open>
  One call of the fetcher as the run performed it: the page asked for, the number of
  results accumulated when it was made, what it sent upstream and what it gave.
\<close>

record fetch_call =
  call_page :: nat
  results_before :: nat
  sent :: "payload list"
  outcome :: "fetch_error + place list option"

text \<open>
  The variables of the handler. \<open>allResults\<close> and \<open>totalApiCalls\<close> live for the run,
  the three flags for one row, \<open>page\<close> and \<open>queryResultIndex\<close> for one grid point;
  entering a scope sets its variables. \<open>fetchLog\<close> is not a variable of the code: it
  records every call of \<open>searchSerperPlaces\<close>, in order.
\<close>

record handler_state =
  allResults :: "place_result list"
  totalApiCalls :: nat
  foundBrandMatch :: bool
  foundAnyResults :: bool
  foundLocalPackMatch :: bool
  page :: nat
  queryResultIndex :: nat
  fetchLog :: "fetch_call list"

datatype run_outcome = Completed handler_state | Failed fetch_error handler_state

text \<open>The body of \<^verbatim>\<open>for (const place of places)\<close>.\<close>

definition classify_place ::
  "request_options \<Rightarrow> query_row \<Rightarrow> geo_point option \<Rightarrow> string \<Rightarrow> string \<Rightarrow>
   place \<Rightarrow> handler_state \<Rightarrow> handler_state" where
  "classify_place opts row gridPoint normBrand normBranch pl s =
     (let title' = (case title pl of None \<Rightarrow> [] | Some t \<Rightarrow> t);
          normTitle = removeWhiteSpace (toLowerCase title');
          brandMatch = (str_includes normTitle normBrand \<and> str_includes normTitle normBranch);
          isLocalPack = (queryResultIndex s \<le> 3);
          localPackPosition = (if isLocalPack then Value (queryResultIndex s) else Null);
          s1 = (if brandMatch
                then s\<lparr>foundBrandMatch := True,
                       foundLocalPackMatch := (if isLocalPack then True else foundLocalPackMatch s)\<rparr>
                else s);
          s2 = s1\<lparr>allResults := allResults s1 @
                 [\<lparr>title = title pl, address = address pl, rating = rating pl,
                   category = category pl,
                   query = Keywords row, brand = Brand row, branch = Branch row,
                   query_result_number = Rank (queryResultIndex s),
                   brand_match = brandMatch,
                   is_local_pack = Some isLocalPack,
                   local_pack_position = Some localPackPosition,
                   device_type = Some (deviceType opts),
                   search_latitude = map_option lat gridPoint,
                   search_longitude = map_option lng gridPoint,
                   local_ranking = None\<rparr>]\<rparr>
      in s2\<lparr>queryResultIndex := queryResultIndex s2 + 1\<rparr>)"

primrec classify_places ::
  "request_options \<Rightarrow> query_row \<Rightarrow> geo_point option \<Rightarrow> string \<Rightarrow> string \<Rightarrow>
   place list \<Rightarrow> handler_state \<Rightarrow> handler_state" where
  "classify_places opts row gridPoint normBrand normBranch [] s = s"
| "classify_places opts row gridPoint normBrand normBranch (pl # pls) s =
     classify_places opts row gridPoint normBrand normBranch pls
       (classify_place opts row gridPoint normBrand normBranch pl s)"

text \<open>\<^verbatim>\<open>data.places || []\<close>.\<close>

definition places_of :: "place list option \<Rightarrow> place list" where
  "places_of data = (case data of None \<Rightarrow> [] | Some ps \<Rightarrow> ps)"

text \<open>
  \<^verbatim>\<open>while (true)\<close> over the pages of one grid point. The loop ends on an empty page or
  on a fetch that throws, and runs on while the upstream keeps returning listings: the
  first argument bounds the number of pages, and \<open>None\<close> says the bound was reached.
  The counter is incremented after the call returns, so a call that throws is logged
  and not counted.
\<close>

fun page_loop ::
  "nat \<Rightarrow> environment \<Rightarrow> request_options \<Rightarrow> query_row \<Rightarrow> geo_point option \<Rightarrow> string \<Rightarrow> string \<Rightarrow>
   handler_state \<Rightarrow> run_outcome option" where
  "page_loop 0 env opts row gridPoint normBrand normBranch s = None"
| "page_loop (Suc n) env opts row gridPoint normBrand normBranch s =
     (let (reqs, res) = searchSerperPlaces (apiKey env) (upstream env (length (fetchLog s)))
                          (Keywords row) (gl opts) (hl opts) (page s) (deviceType opts)
                          (map_option lat gridPoint) (map_option lng gridPoint);
          s0 = s\<lparr>fetchLog := fetchLog s @
                 [\<lparr>call_page = page s, results_before = length (allResults s),
                   sent = reqs, outcome = res\<rparr>]\<rparr>
      in case res of
           Inl e \<Rightarrow> Some (Failed e s0)
         | Inr data \<Rightarrow>
             (let s1 = s0\<lparr>totalApiCalls := totalApiCalls s0 + 1\<rparr>;
                  places = places_of data
              in if places = [] then Some (Completed s1)
                 else
                   (let s2 = classify_places opts row gridPoint normBrand normBranch places
                               (s1\<lparr>foundAnyResults := True\<rparr>)
                    in page_loop n env opts row gridPoint normBrand normBranch
                         (s2\<lparr>page := page s2 + 1\<rparr>))))"

text \<open>\<^verbatim>\<open>for (const gridPoint of gridPoints)\<close>: each point starts at page 1 and index 1.\<close>

primrec grid_loop ::
  "nat \<Rightarrow> environment \<Rightarrow> request_options \<Rightarrow> query_row \<Rightarrow> string \<Rightarrow> string \<Rightarrow>
   geo_point option list \<Rightarrow> handler_state \<Rightarrow> run_outcome option" where
  "grid_loop fuel env opts row normBrand normBranch [] s = Some (Completed s)"
| "grid_loop fuel env opts row normBrand normBranch (gridPoint # rest) s =
     (case page_loop fuel env opts row gridPoint normBrand normBranch
             (s\<lparr>page := 1, queryResultIndex := 1\<rparr>) of
        None \<Rightarrow> None
      | Some (Failed e s') \<Rightarrow> Some (Failed e s')
      | Some (Completed s') \<Rightarrow> grid_loop fuel env opts row normBrand normBranch rest s')"

text \<open>The points searched for a row: the grid, or the one point without coordinates.\<close>

definition gridPoints :: "request_options \<Rightarrow> geo_point option list" where
  "gridPoints opts =
     (case geoGridConfig opts of
        Some cfg \<Rightarrow>
          if geoGridEnabled opts
          then map Some (generateGeoGrid (centerLat cfg) (centerLng cfg)
                 (case radiusKm cfg of None \<Rightarrow> 5 | Some r \<Rightarrow> if r = 0 then 5 else r)
                 (case gridSize cfg of None \<Rightarrow> 3 | Some g \<Rightarrow> if g = 0 then 3 else g))
          else [None]
      | None \<Rightarrow> [None])"

text \<open>The record pushed when a row found no brand match.\<close>

definition not_found :: "query_row \<Rightarrow> place_result" where
  "not_found row =
     \<lparr>title = Some ''Brand not found'', address = Some ''N/A'', rating = None,
      category = Some ''N/A'',
      query = Keywords row, brand = Brand row, branch = Branch row,
      query_result_number = NA, brand_match = False,
      is_local_pack = None, local_pack_position = None, device_type = None,
      search_latitude = None, search_longitude = None,
      local_ranking = Some ''N/A''\<rparr>"

text \<open>The body of the loop over the rows, and the loop.\<close>

definition process_query ::
  "nat \<Rightarrow> environment \<Rightarrow> request_options \<Rightarrow> query_row \<Rightarrow> handler_state \<Rightarrow> run_outcome option" where
  "process_query fuel env opts row s =
     (let normBrand = normalizeBrandName (Brand row);
          normBranch = normalizeBranchName (Branch row);
          s0 = s\<lparr>foundBrandMatch := False, foundAnyResults := False,
                 foundLocalPackMatch := False\<rparr>
      in case grid_loop fuel env opts row normBrand normBranch (gridPoints opts) s0 of
           None \<Rightarrow> None
         | Some (Failed e s') \<Rightarrow> Some (Failed e s')
         | Some (Completed s') \<Rightarrow>
             Some (Completed
               (if \<not> foundBrandMatch s'
                then s'\<lparr>allResults := allResults s' @ [not_found row]\<rparr>
                else s')))"

primrec process_queries ::
  "nat \<Rightarrow> environment \<Rightarrow> request_options \<Rightarrow> query_row list \<Rightarrow> handler_state \<Rightarrow> run_outcome option" where
  "process_queries fuel env opts [] s = Some (Completed s)"
| "process_queries fuel env opts (row # rows) s =
     (case process_query fuel env opts row s of
        None \<Rightarrow> None
      | Some (Failed e s') \<Rightarrow> Some (Failed e s')
      | Some (Completed s') \<Rightarrow> process_queries fuel env opts rows s')"

text \<open>The state in which the handler enters the loop over the rows.\<close>

definition initial_state :: handler_state where
  "initial_state =
     \<lparr>allResults = [], totalApiCalls = 0, foundBrandMatch = False, foundAnyResults = False,
      foundLocalPackMatch = False, page = 1, queryResultIndex = 1, fetchLog = []\<rparr>"

section \<open>Notions the properties are stated with\<close>

text \<open>The state a run ended in, completed or failed.\<close>

primrec final_state :: "run_outcome \<Rightarrow> handler_state" where
  "final_state (Completed s) = s"
| "final_state (Failed e s) = s"

text \<open>
  The record the handler appends for one listing: the element that the loop body adds
  to \<open>allResults\<close>.
\<close>

definition emitted ::
  "request_options \<Rightarrow> query_row \<Rightarrow> geo_point option \<Rightarrow> string \<Rightarrow> string \<Rightarrow> place \<Rightarrow>
   handler_state \<Rightarrow> place_result" where
  "emitted opts row gridPoint normBrand normBranch pl s =
     last (allResults (classify_place opts row gridPoint normBrand normBranch pl s))"

text \<open>The text of a title: \<^verbatim>\<open>place.title || ''\<close>.\<close>

definition title_text :: "string option \<Rightarrow> string" where
  "title_text t = (case t of None \<Rightarrow> [] | Some x \<Rightarrow> x)"

text \<open>
  An alphanumeric character, as the regular expression of the branch normaliser reads
  the word: an ASCII letter of either case or a digit.
\<close>

definition isAlphanumeric :: "char \<Rightarrow> bool" where
  "isAlphanumeric c =
     (let n = (of_char c :: nat)
      in (65 \<le> n \<and> n \<le> 90) \<or> (97 \<le> n \<and> n \<le> 122) \<or> (48 \<le> n \<and> n \<le> 57))"

text \<open>A log in which no call threw.\<close>

definition clean_log :: "fetch_call list \<Rightarrow> bool" where
  "clean_log l = list_all (\<lambda>c. case outcome c of Inl e \<Rightarrow> False | Inr d \<Rightarrow> True) l"

text \<open>The calls of a log that returned.\<close>

definition returned_calls :: "fetch_call list \<Rightarrow> fetch_call list" where
  "returned_calls l = filter (\<lambda>c. case outcome c of Inl e \<Rightarrow> False | Inr d \<Rightarrow> True) l"

text \<open>The ranks \<open>k, k + 1, ...\<close> of a block of records, in order.\<close>

definition numbered_from :: "nat \<Rightarrow> place_result list \<Rightarrow> bool" where
  "numbered_from k rs = (map query_result_number rs = map Rank [k..<k + length rs])"

text \<open>
  What the log and the counter look like when a run ends: after a completed run no
  logged call threw and the counter is the number of logged calls; after a failed run
  the call that threw is the last one logged, every earlier call returned, nothing was
  appended to the results after it, and the counter holds the calls before it.
\<close>

definition log_ok :: "run_outcome \<Rightarrow> bool" where
  "log_ok oc =
     (case oc of
        Completed s' \<Rightarrow> clean_log (fetchLog s') \<and> totalApiCalls s' = length (fetchLog s')
      | Failed e s' \<Rightarrow>
          \<exists>l c. fetchLog s' = l @ [c] \<and> clean_log l \<and> outcome c = Inl e \<and>
                results_before c = length (allResults s') \<and> totalApiCalls s' = length l)"

text \<open>
  An upstream that has nothing for any first page: with the API key set, every request
  for page 1 is answered with success and no listing.
\<close>

definition serves_empty_pages :: "environment \<Rightarrow> bool" where
  "serves_empty_pages env =
     (apiKey env \<noteq> None \<and> apiKey env \<noteq> Some [] \<and>
      (\<forall>n p. payload_page p = 1 \<longrightarrow>
         (\<exists>r d. upstream env n p = Resolved r \<and> ok r \<and> json r = Some d \<and> places_of d = [])))"

section \<open>Concrete runs\<close>

text \<open>
  One row searched without a grid. The upstream answers page 1 with four listings, of
  which the second names the brand and the branch, and every later page with none.
\<close>

definition example_row :: query_row where
  "example_row =
     \<lparr>Keywords = ''dentist london'', Brand = ''Bright Smile'', Branch = ''London''\<rparr>"

definition example_opts :: request_options where
  "example_opts =
     \<lparr>gl = ''gb'', hl = ''en'', deviceType = ''desktop'', geoGridEnabled = False,
      geoGridConfig = None\<rparr>"

definition listing :: "string \<Rightarrow> place" where
  "listing t = \<lparr>title = Some t, address = None, rating = None, category = None\<rparr>"

definition example_places :: "place list" where
  "example_places =
     [listing ''Smile Hub'', listing ''Bright Smile Dental London'', listing ''City Dental'',
      listing ''London Teeth'']"

definition answer :: "place list \<Rightarrow> transport" where
  "answer ps = Resolved \<lparr>ok = True, status = 200, statusText = ''OK'', json = Some (Some ps)\<rparr>"

definition example_env :: environment where
  "example_env =
     \<lparr>apiKey = Some ''key'',
      upstream = (\<lambda>n p. if payload_page p = 1 then answer example_places else answer [])\<rparr>"

text \<open>The records and the log entries of these runs, written out.\<close>

definition example_result ::
  "string \<Rightarrow> nat \<Rightarrow> bool \<Rightarrow> bool \<Rightarrow> nat nullable \<Rightarrow> geo_point option \<Rightarrow> place_result" where
  "example_result t k bm lp pos gp =
     \<lparr>title = Some t, address = None, rating = None, category = None,
      query = ''dentist london'', brand = ''Bright Smile'', branch = ''London'',
      query_result_number = Rank k, brand_match = bm, is_local_pack = Some lp,
      local_pack_position = Some pos, device_type = Some ''desktop'',
      search_latitude = map_option lat gp, search_longitude = map_option lng gp,
      local_ranking = None\<rparr>"

definition example_call ::
  "nat \<Rightarrow> nat \<Rightarrow> geo_point option \<Rightarrow> fetch_error + place list option \<Rightarrow> fetch_call" where
  "example_call pg k gp res =
     \<lparr>call_page = pg, results_before = k,
      sent = [\<lparr>q = ''dentist london'', payload_gl = ''gb'', payload_hl = ''en'',
               payload_page = pg, device = ''desktop'',
               ll = map_option (\<lambda>g. (lat g, lng g)) gp\<rparr>],
      outcome = res\<rparr>"

definition example_final :: handler_state where
  "example_final =
     \<lparr>allResults =
        [example_result ''Smile Hub'' 1 False True (Value 1) None,
         example_result ''Bright Smile Dental London'' 2 True True (Value 2) None,
         example_result ''City Dental'' 3 False True (Value 3) None,
         example_result ''London Teeth'' 4 False False Null None],
      totalApiCalls = 2, foundBrandMatch = True, foundAnyResults = True,
      foundLocalPackMatch = True, page = 2, queryResultIndex = 5,
      fetchLog =
        [example_call 1 0 None (Inr (Some example_places)),
         example_call 2 4 None (Inr (Some []))]\<rparr>"

text \<open>
  The same row searched on a grid of two by two points around (0, 0), with a radius of
  111.32 km, one degree of latitude. The upstream answers every first page with the same
  two listings and every later page with none.
\<close>

definition grid_opts :: request_options where
  "grid_opts =
     \<lparr>gl = ''gb'', hl = ''en'', deviceType = ''desktop'', geoGridEnabled = True,
      geoGridConfig =
        Some \<lparr>centerLat = 0, centerLng = 0, radiusKm = Some 111.32, gridSize = Some 2\<rparr>\<rparr>"

definition grid_places :: "place list" where
  "grid_places = [listing ''Bright Smile Dental London'', listing ''City Dental'']"

definition grid_env :: environment where
  "grid_env =
     \<lparr>apiKey = Some ''key'',
      upstream = (\<lambda>n p. if payload_page p = 1 then answer grid_places else answer [])\<rparr>"

definition south_west :: geo_point where "south_west = \<lparr>lat = - 1, lng = - 1\<rparr>"
definition south_east :: geo_point where "south_east = \<lparr>lat = - 1, lng = 1\<rparr>"
definition north_west :: geo_point where "north_west = \<lparr>lat = 1, lng = - 1\<rparr>"
definition north_east :: geo_point where "north_east = \<lparr>lat = 1, lng = 1\<rparr>"

definition grid_block :: "geo_point \<Rightarrow> place_result list" where
  "grid_block gp =
     [example_result ''Bright Smile Dental London'' 1 True True (Value 1) (Some gp),
      example_result ''City Dental'' 2 False True (Value 2) (Some gp)]"

definition grid_final :: handler_state where
  "grid_final =
     \<lparr>allResults =
        grid_block south_west @ grid_block south_east @ grid_block north_west @
        grid_block north_east,
      totalApiCalls = 8, foundBrandMatch = True, foundAnyResults = True,
      foundLocalPackMatch = True, page = 2, queryResultIndex = 3,
      fetchLog =
        [example_call 1 0 (Some south_west) (Inr (Some grid_places)),
         example_call 2 2 (Some south_west) (Inr (Some [])),
         example_call 1 2 (Some south_east) (Inr (Some grid_places)),
         example_call 2 4 (Some south_east) (Inr (Some [])),
         example_call 1 4 (Some north_west) (Inr (Some grid_places)),
         example_call 2 6 (Some north_west) (Inr (Some [])),
         example_call 1 6 (Some north_east) (Inr (Some grid_places)),
         example_call 2 8 (Some north_east) (Inr (Some []))]\<rparr>"

text \<open>
  A run of two rows in which the upstream answers the first page and refuses the
  second with status 503.
\<close>

definition failing_env :: environment where
  "failing_env =
     \<lparr>apiKey = Some ''key'',
      upstream = (\<lambda>n p. if payload_page p = 1 then answer [listing ''City Dental'']
                         else Resolved \<lparr>ok = False, status = 503,
                                statusText = ''Service Unavailable'', json = None\<rparr>)\<rparr>"

definition failing_final :: handler_state where
  "failing_final =
     \<lparr>allResults = [example_result ''City Dental'' 1 False True (Value 1) None],
      totalApiCalls = 1, foundBrandMatch = False, foundAnyResults = True,
      foundLocalPackMatch = False, page = 2, queryResultIndex = 2,
      fetchLog =
        [example_call 1 0 None (Inr (Some [listing ''City Dental''])),
         example_call 2 1 None (Inl (SerperApiError 503 ''Service Unavailable''))]\<rparr>"

text \<open>
  An upstream without any listing, the same without an API key, and a row whose names
  normalise to nothing.
\<close>

definition empty_env :: environment where
  "empty_env = \<lparr>apiKey = Some ''key'', upstream = (\<lambda>n p. answer [])\<rparr>"

definition keyless_env :: environment where
  "keyless_env = \<lparr>apiKey = None, upstream = (\<lambda>n p. answer [])\<rparr>"

definition blank_row :: query_row where
  "blank_row = \<lparr>Keywords = ''dentist london'', Brand = '' '', Branch = ''-''\<rparr>"

section \<open>Strings: substring test and normalisers\<close>

lemma str_includes_sublist: "str_includes t s \<longleftrightarrow> sublist s t"
  by (induction t) (auto simp: sublist_Cons_right)

lemma of_char_toLowerCaseUnit:
  "(of_char (toLowerCaseUnit c) :: nat) =
     (let n = (of_char c :: nat) in
      if (65 \<le> n \<and> n \<le> 90) \<or> (192 \<le> n \<and> n \<le> 214) \<or> (216 \<le> n \<and> n \<le> 222)
      then n + 32 else n)"
  by (auto simp: toLowerCaseUnit_def Let_def)

lemma isLowerAlnum_lower: "isLowerAlnum (toLowerCaseUnit c) = isAlphanumeric c"
  by (auto simp: isLowerAlnum_def isAlphanumeric_def of_char_toLowerCaseUnit Let_def)


lemma isWhiteSpace_lower: "isWhiteSpace (toLowerCaseUnit c) = isWhiteSpace c"
  by (auto simp: isWhiteSpace_def of_char_toLowerCaseUnit Let_def)


lemma normalizeBranchName_empty:
  "normalizeBranchName b = [] \<longleftrightarrow> (\<forall>c\<in>set b. \<not> isAlphanumeric c)"
  by (simp add: normalizeBranchName_def keepLowerAlnum_def toLowerCase_def filter_empty_conv isLowerAlnum_lower)

lemma normalizeBrandName_empty:
  "normalizeBrandName b = [] \<longleftrightarrow> (\<forall>c\<in>set b. isWhiteSpace c)"
  by (simp add: normalizeBrandName_def removeWhiteSpace_def toLowerCase_def filter_empty_conv isWhiteSpace_lower)

section \<open>The loop over the listings of a page\<close>

lemma classify_place_kept [simp]:
  "totalApiCalls (classify_place opts row gp nb nbr pl s) = totalApiCalls s"
  "fetchLog (classify_place opts row gp nb nbr pl s) = fetchLog s"
  "page (classify_place opts row gp nb nbr pl s) = page s"
  "queryResultIndex (classify_place opts row gp nb nbr pl s) = Suc (queryResultIndex s)"
  by (simp_all add: classify_place_def Let_def)

lemma classify_place_allResults:
  "allResults (classify_place opts row gp nb nbr pl s) =
     allResults s @ [emitted opts row gp nb nbr pl s]"
  by (simp add: emitted_def classify_place_def Let_def)

lemma emitted_fields:
  "query_result_number (emitted opts row gp nb nbr pl s) = Rank (queryResultIndex s)"
  "brand_match (emitted opts row gp nb nbr pl s) =
     (str_includes (removeWhiteSpace (toLowerCase (title_text (title pl)))) nb \<and>
      str_includes (removeWhiteSpace (toLowerCase (title_text (title pl)))) nbr)"
  "is_local_pack (emitted opts row gp nb nbr pl s) = Some (queryResultIndex s \<le> 3)"
  "local_pack_position (emitted opts row gp nb nbr pl s) =
     Some (if queryResultIndex s \<le> 3 then Value (queryResultIndex s) else Null)"
  "title (emitted opts row gp nb nbr pl s) = title pl"
  "brand (emitted opts row gp nb nbr pl s) = Brand row"
  "branch (emitted opts row gp nb nbr pl s) = Branch row"
  "query (emitted opts row gp nb nbr pl s) = Keywords row"
  "search_latitude (emitted opts row gp nb nbr pl s) = map_option lat gp"
  "search_longitude (emitted opts row gp nb nbr pl s) = map_option lng gp"
  by (simp_all add: emitted_def classify_place_def Let_def title_text_def)

lemma classify_place_found:
  "foundBrandMatch (classify_place opts row gp nb nbr pl s) =
     (foundBrandMatch s \<or> brand_match (emitted opts row gp nb nbr pl s))"
  by (auto simp: emitted_def classify_place_def Let_def)

lemma classify_places_kept [simp]:
  "totalApiCalls (classify_places opts row gp nb nbr pls s) = totalApiCalls s"
  "fetchLog (classify_places opts row gp nb nbr pls s) = fetchLog s"
  "page (classify_places opts row gp nb nbr pls s) = page s"
  "queryResultIndex (classify_places opts row gp nb nbr pls s) = queryResultIndex s + length pls"
  by (induction pls arbitrary: s; simp)+

lemma numbered_from_Nil [simp]: "numbered_from k []"
  by (simp add: numbered_from_def)

lemma numbered_from_Cons:
  "numbered_from k (r # rs) \<longleftrightarrow> query_result_number r = Rank k \<and> numbered_from (Suc k) rs"
proof -
  have "[k..<k + length (r # rs)] = k # [Suc k..<Suc k + length rs]"
    by (subst upt_rec) simp
  then show ?thesis by (auto simp: numbered_from_def)
qed

lemma numbered_from_append:
  "numbered_from k (rs @ rs') \<longleftrightarrow> numbered_from k rs \<and> numbered_from (k + length rs) rs'"
  by (induction rs arbitrary: k) (auto simp: numbered_from_Cons)

lemma classify_places_spec:
  assumes P: "\<And>pl s0. P (emitted opts row gp nb nbr pl s0)"
  shows "\<exists>new. allResults (classify_places opts row gp nb nbr pls s) = allResults s @ new \<and>
           length new = length pls \<and>
           numbered_from (queryResultIndex s) new \<and>
           list_all P new \<and>
           (foundBrandMatch (classify_places opts row gp nb nbr pls s) \<longleftrightarrow>
              foundBrandMatch s \<or> list_ex brand_match new)"
proof (induction pls arbitrary: s)
  case Nil
  then show ?case by simp
next
  case (Cons pl pls)
  let ?s1 = "classify_place opts row gp nb nbr pl s"
  from Cons.IH [of ?s1] obtain new where
    new: "allResults (classify_places opts row gp nb nbr pls ?s1) = allResults ?s1 @ new"
      "length new = length pls" "numbered_from (queryResultIndex ?s1) new" "list_all P new"
      "foundBrandMatch (classify_places opts row gp nb nbr pls ?s1) \<longleftrightarrow>
         foundBrandMatch ?s1 \<or> list_ex brand_match new"
    by blast
  let ?r = "emitted opts row gp nb nbr pl s"
  have "allResults (classify_places opts row gp nb nbr (pl # pls) s) = allResults s @ (?r # new)"
    using new(1) by (simp add: classify_place_allResults)
  moreover have "length (?r # new) = length (pl # pls)" using new(2) by simp
  moreover have "numbered_from (queryResultIndex s) (?r # new)"
    using new(3) by (simp add: numbered_from_Cons emitted_fields)
  moreover have "list_all P (?r # new)" using new(4) P by simp
  moreover have "foundBrandMatch (classify_places opts row gp nb nbr (pl # pls) s) \<longleftrightarrow>
      foundBrandMatch s \<or> list_ex brand_match (?r # new)"
    using new(5) by (simp add: classify_place_found)
  ultimately show ?case by blast
qed

section \<open>The loop over the pages of a grid point\<close>

lemma page_loop_results:
  assumes P: "\<And>pl s0. P (emitted opts row gp nb nbr pl s0)"
  shows "page_loop fuel env opts row gp nb nbr s = Some oc \<Longrightarrow>
     \<exists>new. allResults (final_state oc) = allResults s @ new \<and>
           numbered_from (queryResultIndex s) new \<and> list_all P new \<and>
           (foundBrandMatch (final_state oc) \<longleftrightarrow> foundBrandMatch s \<or> list_ex brand_match new)"
proof (induction fuel arbitrary: s)
  case 0
  then show ?case by simp
next
  case (Suc n)
  obtain reqs res where f: "searchSerperPlaces (apiKey env) (upstream env (length (fetchLog s)))
      (Keywords row) (gl opts) (hl opts) (page s) (deviceType opts)
      (map_option lat gp) (map_option lng gp) = (reqs, res)"
    by (cases "searchSerperPlaces (apiKey env) (upstream env (length (fetchLog s)))
      (Keywords row) (gl opts) (hl opts) (page s) (deviceType opts)
      (map_option lat gp) (map_option lng gp)") auto
  define s0 where "s0 = s\<lparr>fetchLog := fetchLog s @
      [\<lparr>call_page = page s, results_before = length (allResults s), sent = reqs, outcome = res\<rparr>]\<rparr>"
  show ?case
  proof (cases res)
    case (Inl e)
    with f Suc.prems have "oc = Failed e s0" by (simp add: s0_def)
    then show ?thesis by (simp add: s0_def)
  next
    case (Inr data)
    define s1 where "s1 = s0\<lparr>totalApiCalls := totalApiCalls s0 + 1\<rparr>"
    show ?thesis
    proof (cases "places_of data = []")
      case True
      with f Inr Suc.prems have "oc = Completed s1" by (simp add: s0_def s1_def)
      then show ?thesis by (simp add: s0_def s1_def)
    next
      case False
      define s2 where "s2 = classify_places opts row gp nb nbr (places_of data) (s1\<lparr>foundAnyResults := True\<rparr>)"
      from f Inr False Suc.prems
      have run: "page_loop n env opts row gp nb nbr (s2\<lparr>page := page s2 + 1\<rparr>) = Some oc"
        by (simp add: s0_def s1_def s2_def Let_def)
      from classify_places_spec [of P opts row gp nb nbr "places_of data" "s1\<lparr>foundAnyResults := True\<rparr>", OF P]
      obtain new1 where n1: "allResults s2 = allResults s @ new1"
        "length new1 = length (places_of data)"
        "numbered_from (queryResultIndex s) new1" "list_all P new1"
        "foundBrandMatch s2 \<longleftrightarrow> foundBrandMatch s \<or> list_ex brand_match new1"
        unfolding s2_def [symmetric] by (auto simp: s0_def s1_def)
      have q2: "queryResultIndex s2 = queryResultIndex s + length new1"
        using n1(2) by (simp add: s2_def s1_def s0_def)
      from Suc.IH [OF run] obtain new2 where n2:
        "allResults (final_state oc) = allResults s2 @ new2"
        "numbered_from (queryResultIndex s2) new2" "list_all P new2"
        "foundBrandMatch (final_state oc) \<longleftrightarrow> foundBrandMatch s2 \<or> list_ex brand_match new2"
        by auto
      have "allResults (final_state oc) = allResults s @ (new1 @ new2)"
        using n1(1) n2(1) by simp
      moreover have "numbered_from (queryResultIndex s) (new1 @ new2)"
        using n1(3) n2(2) q2 by (simp add: numbered_from_append)
      moreover have "list_all P (new1 @ new2)" using n1(4) n2(3) by simp
      moreover have "foundBrandMatch (final_state oc) \<longleftrightarrow>
          foundBrandMatch s \<or> list_ex brand_match (new1 @ new2)"
        using n1(5) n2(4) by auto
      ultimately show ?thesis by blast
    qed
  qed
qed

lemma clean_log_simps [simp]:
  "clean_log []"
  "clean_log (l @ [c]) \<longleftrightarrow> clean_log l \<and> (\<exists>d. outcome c = Inr d)"
  by (auto simp: clean_log_def split: sum.splits)

lemma page_loop_log:
  "page_loop fuel env opts row gp nb nbr s = Some oc \<Longrightarrow>
   clean_log (fetchLog s) \<Longrightarrow> totalApiCalls s = length (fetchLog s) \<Longrightarrow>
     (case oc of
        Completed s' \<Rightarrow> clean_log (fetchLog s') \<and> totalApiCalls s' = length (fetchLog s')
      | Failed e s' \<Rightarrow>
          \<exists>l c. fetchLog s' = l @ [c] \<and> clean_log l \<and> outcome c = Inl e \<and>
                results_before c = length (allResults s') \<and> totalApiCalls s' = length l)"
proof (induction fuel arbitrary: s)
  case 0
  then show ?case by simp
next
  case (Suc n)
  obtain reqs res where f: "searchSerperPlaces (apiKey env) (upstream env (length (fetchLog s)))
      (Keywords row) (gl opts) (hl opts) (page s) (deviceType opts)
      (map_option lat gp) (map_option lng gp) = (reqs, res)"
    by (cases "searchSerperPlaces (apiKey env) (upstream env (length (fetchLog s)))
      (Keywords row) (gl opts) (hl opts) (page s) (deviceType opts)
      (map_option lat gp) (map_option lng gp)") auto
  define s0 where "s0 = s\<lparr>fetchLog := fetchLog s @
      [\<lparr>call_page = page s, results_before = length (allResults s), sent = reqs, outcome = res\<rparr>]\<rparr>"
  show ?case
  proof (cases res)
    case (Inl e)
    with f Suc.prems have "oc = Failed e s0" by (simp add: s0_def)
    then show ?thesis using Suc.prems(2,3) Inl by (simp add: s0_def)
  next
    case (Inr data)
    define s1 where "s1 = s0\<lparr>totalApiCalls := totalApiCalls s0 + 1\<rparr>"
    show ?thesis
    proof (cases "places_of data = []")
      case True
      with f Inr Suc.prems have "oc = Completed s1" by (simp add: s0_def s1_def)
      then show ?thesis using Suc.prems(2,3) Inr by (simp add: s0_def s1_def)
    next
      case False
      define s2 where "s2 = classify_places opts row gp nb nbr (places_of data) (s1\<lparr>foundAnyResults := True\<rparr>)"
      from f Inr False Suc.prems
      have run: "page_loop n env opts row gp nb nbr (s2\<lparr>page := page s2 + 1\<rparr>) = Some oc"
        by (simp add: s0_def s1_def s2_def Let_def)
      have "clean_log (fetchLog (s2\<lparr>page := page s2 + 1\<rparr>))"
        using Suc.prems(2) Inr by (simp add: s2_def s1_def s0_def)
      moreover have "totalApiCalls (s2\<lparr>page := page s2 + 1\<rparr>) = length (fetchLog (s2\<lparr>page := page s2 + 1\<rparr>))"
        using Suc.prems(3) by (simp add: s2_def s1_def s0_def)
      ultimately show ?thesis using Suc.IH [OF run] by blast
    qed
  qed
qed

section \<open>The loops over the grid points and over the rows\<close>

lemma grid_loop_results:
  assumes P: "\<And>gp pl s0. P gp (emitted opts row gp nb nbr pl s0)"
  shows "grid_loop fuel env opts row nb nbr gps s = Some oc \<Longrightarrow>
     \<exists>blocks. allResults (final_state oc) = allResults s @ concat blocks \<and>
       list_all2 (\<lambda>gp b. numbered_from 1 b \<and> list_all (P gp) b) (take (length blocks) gps) blocks \<and>
       ((\<exists>s'. oc = Completed s') \<longrightarrow> length blocks = length gps) \<and>
       (foundBrandMatch (final_state oc) \<longleftrightarrow>
          foundBrandMatch s \<or> list_ex brand_match (concat blocks))"
proof (induction gps arbitrary: s)
  case Nil
  then have "oc = Completed s" by simp
  then have "allResults (final_state oc) = allResults s @ concat []"
    "list_all2 (\<lambda>gp b. numbered_from 1 b \<and> list_all (P gp) b) (take (length ([]::place_result list list)) []) []"
    "foundBrandMatch (final_state oc) \<longleftrightarrow> foundBrandMatch s \<or> list_ex brand_match (concat [])"
    by simp_all
  then show ?case by (intro exI [of _ "[]"]) simp
next
  case (Cons gp rest)
  let ?s = "s\<lparr>page := 1, queryResultIndex := 1\<rparr>"
  from Cons.prems obtain oc1 where p: "page_loop fuel env opts row gp nb nbr ?s = Some oc1"
    by (cases "page_loop fuel env opts row gp nb nbr ?s") auto
  from page_loop_results [of "P gp" opts row gp nb nbr fuel env ?s oc1, OF P p]
  obtain new where new: "allResults (final_state oc1) = allResults s @ new"
    "numbered_from 1 new" "list_all (P gp) new"
    "foundBrandMatch (final_state oc1) \<longleftrightarrow> foundBrandMatch s \<or> list_ex brand_match new"
    by auto
  show ?case
  proof (cases oc1)
    case (Failed e s')
    with p Cons.prems have oc: "oc = Failed e s'" by simp
    have "allResults (final_state oc) = allResults s @ concat [new]"
      using new(1) oc Failed by simp
    moreover have "list_all2 (\<lambda>gp b. numbered_from 1 b \<and> list_all (P gp) b)
        (take (length [new]) (gp # rest)) [new]"
      using new(2,3) by simp
    moreover have "(\<exists>s'. oc = Completed s') \<longrightarrow> length [new] = length (gp # rest)"
      using oc by simp
    moreover have "foundBrandMatch (final_state oc) \<longleftrightarrow>
        foundBrandMatch s \<or> list_ex brand_match (concat [new])"
      using new(4) oc Failed by simp
    ultimately show ?thesis by (intro exI [of _ "[new]"] conjI)
  next
    case (Completed s')
    with p Cons.prems have run: "grid_loop fuel env opts row nb nbr rest s' = Some oc" by simp
    from Cons.IH [OF run] obtain blocks where b:
      "allResults (final_state oc) = allResults s' @ concat blocks"
      "list_all2 (\<lambda>gp b. numbered_from 1 b \<and> list_all (P gp) b) (take (length blocks) rest) blocks"
      "(\<exists>s'. oc = Completed s') \<longrightarrow> length blocks = length rest"
      "foundBrandMatch (final_state oc) \<longleftrightarrow> foundBrandMatch s' \<or> list_ex brand_match (concat blocks)"
      by blast
    have "allResults (final_state oc) = allResults s @ concat (new # blocks)"
      using new(1) b(1) Completed by simp
    moreover have "list_all2 (\<lambda>gp b. numbered_from 1 b \<and> list_all (P gp) b)
        (take (length (new # blocks)) (gp # rest)) (new # blocks)"
      using new(2,3) b(2) by simp
    moreover have "(\<exists>s'. oc = Completed s') \<longrightarrow> length (new # blocks) = length (gp # rest)"
      using b(3) by simp
    moreover have "foundBrandMatch (final_state oc) \<longleftrightarrow>
        foundBrandMatch s \<or> list_ex brand_match (concat (new # blocks))"
      using new(4) b(4) Completed by auto
    ultimately show ?thesis by (intro exI [of _ "new # blocks"] conjI)
  qed
qed

lemma grid_loop_log:
  "grid_loop fuel env opts row nb nbr gps s = Some oc \<Longrightarrow>
   clean_log (fetchLog s) \<Longrightarrow> totalApiCalls s = length (fetchLog s) \<Longrightarrow> log_ok oc"
proof (induction gps arbitrary: s)
  case Nil
  then show ?case by (auto simp: log_ok_def)
next
  case (Cons gp rest)
  let ?s = "s\<lparr>page := 1, queryResultIndex := 1\<rparr>"
  from Cons.prems obtain oc1 where p: "page_loop fuel env opts row gp nb nbr ?s = Some oc1"
    by (cases "page_loop fuel env opts row gp nb nbr ?s") auto
  have l: "log_ok oc1"
    unfolding log_ok_def using page_loop_log [OF p] Cons.prems(2,3) by simp
  show ?case
  proof (cases oc1)
    case (Failed e s')
    with p Cons.prems have "oc = Failed e s'" by simp
    with l Failed show ?thesis by simp
  next
    case (Completed s')
    with p Cons.prems have run: "grid_loop fuel env opts row nb nbr rest s' = Some oc" by simp
    from l Completed have "clean_log (fetchLog s')" "totalApiCalls s' = length (fetchLog s')"
      by (simp_all add: log_ok_def)
    with Cons.IH [OF run] show ?thesis by simp
  qed
qed

lemma process_query_log:
  assumes "process_query fuel env opts row s = Some oc"
    and "clean_log (fetchLog s)" and "totalApiCalls s = length (fetchLog s)"
  shows "log_ok oc"
proof -
  let ?s0 = "s\<lparr>foundBrandMatch := False, foundAnyResults := False, foundLocalPackMatch := False\<rparr>"
  from assms(1) obtain oc1 where
    g: "grid_loop fuel env opts row (normalizeBrandName (Brand row))
          (normalizeBranchName (Branch row)) (gridPoints opts) ?s0 = Some oc1"
    by (cases "grid_loop fuel env opts row (normalizeBrandName (Brand row))
          (normalizeBranchName (Branch row)) (gridPoints opts) ?s0")
       (auto simp: process_query_def Let_def)
  have l: "log_ok oc1" using grid_loop_log [OF g] assms(2,3) by simp
  show ?thesis
  proof (cases oc1)
    case (Failed e s')
    with g assms(1) have "oc = Failed e s'" by (simp add: process_query_def Let_def)
    with l Failed show ?thesis by simp
  next
    case (Completed s')
    with g assms(1) have "oc = Completed (if \<not> foundBrandMatch s'
        then s'\<lparr>allResults := allResults s' @ [not_found row]\<rparr> else s')"
      by (simp add: process_query_def Let_def)
    with l Completed show ?thesis by (simp add: log_ok_def)
  qed
qed

lemma process_queries_log:
  "process_queries fuel env opts rows s = Some oc \<Longrightarrow>
   clean_log (fetchLog s) \<Longrightarrow> totalApiCalls s = length (fetchLog s) \<Longrightarrow> log_ok oc"
proof (induction rows arbitrary: s)
  case Nil
  then show ?case by (auto simp: log_ok_def)
next
  case (Cons row rows)
  from Cons.prems obtain oc1 where p: "process_query fuel env opts row s = Some oc1"
    by (cases "process_query fuel env opts row s") auto
  have l: "log_ok oc1" using process_query_log [OF p] Cons.prems(2,3) by simp
  show ?case
  proof (cases oc1)
    case (Failed e s')
    with p Cons.prems have "oc = Failed e s'" by simp
    with l Failed show ?thesis by simp
  next
    case (Completed s')
    with p Cons.prems have run: "process_queries fuel env opts rows s' = Some oc" by simp
    from l Completed have "clean_log (fetchLog s')" "totalApiCalls s' = length (fetchLog s')"
      by (simp_all add: log_ok_def)
    with Cons.IH [OF run] show ?thesis by simp
  qed
qed

lemma list_all2_right: "list_all2 (\<lambda>x y. Q y) xs ys \<Longrightarrow> list_all Q ys"
  by (induction xs ys rule: list_all2_induct) auto

lemma list_all_concat: "list_all (list_all P) bs \<Longrightarrow> list_all P (concat bs)"
  by (induction bs) auto

lemma process_query_results:
  assumes P: "\<And>gp pl s0. P gp (emitted opts row gp (normalizeBrandName (Brand row))
                 (normalizeBranchName (Branch row)) pl s0)"
    and run: "process_query fuel env opts row s = Some oc"
  shows "\<exists>blocks. allResults (final_state oc) =
           allResults s @ concat blocks @
             (if (\<exists>s'. oc = Completed s') \<and> \<not> list_ex brand_match (concat blocks)
              then [not_found row] else []) \<and>
       list_all2 (\<lambda>gp b. numbered_from 1 b \<and> list_all (P gp) b)
         (take (length blocks) (gridPoints opts)) blocks \<and>
       ((\<exists>s'. oc = Completed s') \<longrightarrow> length blocks = length (gridPoints opts))"
proof -
  let ?s0 = "s\<lparr>foundBrandMatch := False, foundAnyResults := False, foundLocalPackMatch := False\<rparr>"
  let ?nb = "normalizeBrandName (Brand row)" and ?nbr = "normalizeBranchName (Branch row)"
  from run obtain oc1 where
    g: "grid_loop fuel env opts row ?nb ?nbr (gridPoints opts) ?s0 = Some oc1"
    by (cases "grid_loop fuel env opts row ?nb ?nbr (gridPoints opts) ?s0")
       (auto simp: process_query_def Let_def)
  from grid_loop_results [of P opts row ?nb ?nbr fuel env "gridPoints opts" ?s0 oc1, OF P g]
  obtain blocks where b:
    "allResults (final_state oc1) = allResults s @ concat blocks"
    "list_all2 (\<lambda>gp b. numbered_from 1 b \<and> list_all (P gp) b)
       (take (length blocks) (gridPoints opts)) blocks"
    "(\<exists>s'. oc1 = Completed s') \<longrightarrow> length blocks = length (gridPoints opts)"
    "foundBrandMatch (final_state oc1) \<longleftrightarrow> list_ex brand_match (concat blocks)"
    by auto
  have "allResults (final_state oc) =
           allResults s @ concat blocks @
             (if (\<exists>s'. oc = Completed s') \<and> \<not> list_ex brand_match (concat blocks)
              then [not_found row] else [])"
  proof (cases oc1)
    case (Failed e s')
    with g run have "oc = Failed e s'" by (simp add: process_query_def Let_def)
    with b(1) Failed show ?thesis by simp
  next
    case (Completed s')
    with g run have "oc = Completed (if \<not> foundBrandMatch s'
        then s'\<lparr>allResults := allResults s' @ [not_found row]\<rparr> else s')"
      by (simp add: process_query_def Let_def)
    with b(1,4) Completed show ?thesis by simp
  qed
  moreover have "(\<exists>s'. oc = Completed s') \<longrightarrow> length blocks = length (gridPoints opts)"
  proof (cases oc1)
    case (Failed e s')
    with g run have "oc = Failed e s'" by (simp add: process_query_def Let_def)
    then show ?thesis by simp
  next
    case (Completed s')
    with b(3) show ?thesis by simp
  qed
  ultimately show ?thesis using b(2) by (intro exI [of _ blocks] conjI)
qed

lemma process_query_all:
  assumes P: "\<And>gp pl s0. P (emitted opts row gp (normalizeBrandName (Brand row))
                 (normalizeBranchName (Branch row)) pl s0)"
    and N: "P (not_found row)"
    and run: "process_query fuel env opts row s = Some oc"
    and inv: "list_all P (allResults s)"
  shows "list_all P (allResults (final_state oc))"
proof -
  from process_query_results [of "\<lambda>gp. P" opts row fuel env s oc, OF P run]
  obtain blocks where b: "allResults (final_state oc) =
           allResults s @ concat blocks @
             (if (\<exists>s'. oc = Completed s') \<and> \<not> list_ex brand_match (concat blocks)
              then [not_found row] else [])"
       "list_all2 (\<lambda>gp b. numbered_from 1 b \<and> list_all P b)
         (take (length blocks) (gridPoints opts)) blocks"
    by blast
  from b(2) have "list_all (\<lambda>b. numbered_from 1 b \<and> list_all P b) blocks"
    by (rule list_all2_right)
  then have "list_all (list_all P) blocks"
    by (simp add: list_all_iff)
  then have "list_all P (concat blocks)" by (rule list_all_concat)
  with b(1) inv N show ?thesis by simp
qed

lemma process_queries_all:
  assumes P: "\<And>row gp pl s0. P (emitted opts row gp (normalizeBrandName (Brand row))
                 (normalizeBranchName (Branch row)) pl s0)"
    and N: "\<And>row. P (not_found row)"
  shows "process_queries fuel env opts rows s = Some oc \<Longrightarrow> list_all P (allResults s) \<Longrightarrow>
         list_all P (allResults (final_state oc))"
proof (induction rows arbitrary: s)
  case Nil
  then show ?case by auto
next
  case (Cons row rows)
  from Cons.prems obtain oc1 where p: "process_query fuel env opts row s = Some oc1"
    by (cases "process_query fuel env opts row s") auto
  have l: "list_all P (allResults (final_state oc1))"
    using process_query_all [of P opts row fuel env s oc1, OF P N p Cons.prems(2)] .
  show ?case
  proof (cases oc1)
    case (Failed e s')
    with p Cons.prems have "oc = Failed e s'" by simp
    with l Failed show ?thesis by simp
  next
    case (Completed s')
    with p Cons.prems have run: "process_queries fuel env opts rows s' = Some oc" by simp
    from l Completed have "list_all P (allResults s')" by simp
    with Cons.IH [OF run] show ?thesis by simp
  qed
qed

section \<open>Executing the loops on explicit states\<close>

text \<open>
  The loop body and one turn of the page loop on a state whose fields are written out,
  and the concrete runs computed with them.
\<close>

lemma classify_place_explicit:
  "classify_place opts row gp nb nbr pl
     \<lparr>allResults = rs, totalApiCalls = t, foundBrandMatch = fb, foundAnyResults = fa,
      foundLocalPackMatch = fl, page = p, queryResultIndex = k, fetchLog = lg\<rparr> =
   \<lparr>allResults = rs @
       [\<lparr>title = title pl, address = address pl, rating = rating pl, category = category pl,
         query = Keywords row, brand = Brand row, branch = Branch row,
         query_result_number = Rank k,
         brand_match = (str_includes (removeWhiteSpace (toLowerCase (title_text (title pl)))) nb \<and>
                        str_includes (removeWhiteSpace (toLowerCase (title_text (title pl)))) nbr),
         is_local_pack = Some (k \<le> 3),
         local_pack_position = Some (if k \<le> 3 then Value k else Null),
         device_type = Some (deviceType opts),
         search_latitude = map_option lat gp, search_longitude = map_option lng gp,
         local_ranking = None\<rparr>],
     totalApiCalls = t,
     foundBrandMatch = (fb \<or> (str_includes (removeWhiteSpace (toLowerCase (title_text (title pl)))) nb \<and>
                        str_includes (removeWhiteSpace (toLowerCase (title_text (title pl)))) nbr)),
     foundAnyResults = fa,
     foundLocalPackMatch = (fl \<or> (str_includes (removeWhiteSpace (toLowerCase (title_text (title pl)))) nb \<and>
                        str_includes (removeWhiteSpace (toLowerCase (title_text (title pl)))) nbr) \<and> k \<le> 3),
     page = p, queryResultIndex = Suc k, fetchLog = lg\<rparr>"
  by (auto simp: classify_place_def Let_def title_text_def)

lemma page_loop_explicit:
  "page_loop (Suc n) env opts row gp nb nbr
     \<lparr>allResults = rs, totalApiCalls = t, foundBrandMatch = fb, foundAnyResults = fa,
      foundLocalPackMatch = fl, page = p, queryResultIndex = k, fetchLog = lg\<rparr> =
   (case searchSerperPlaces (apiKey env) (upstream env (length lg)) (Keywords row) (gl opts)
           (hl opts) p (deviceType opts) (map_option lat gp) (map_option lng gp) of
      (reqs, Inl e) \<Rightarrow>
        Some (Failed e
          \<lparr>allResults = rs, totalApiCalls = t, foundBrandMatch = fb, foundAnyResults = fa,
           foundLocalPackMatch = fl, page = p, queryResultIndex = k,
           fetchLog = lg @ [\<lparr>call_page = p, results_before = length rs, sent = reqs,
                             outcome = Inl e\<rparr>]\<rparr>)
    | (reqs, Inr data) \<Rightarrow>
        if places_of data = [] then
          Some (Completed
            \<lparr>allResults = rs, totalApiCalls = Suc t, foundBrandMatch = fb, foundAnyResults = fa,
             foundLocalPackMatch = fl, page = p, queryResultIndex = k,
             fetchLog = lg @ [\<lparr>call_page = p, results_before = length rs, sent = reqs,
                               outcome = Inr data\<rparr>]\<rparr>)
        else page_loop n env opts row gp nb nbr
               ((classify_places opts row gp nb nbr (places_of data)
                  \<lparr>allResults = rs, totalApiCalls = Suc t, foundBrandMatch = fb,
                   foundAnyResults = True, foundLocalPackMatch = fl, page = p,
                   queryResultIndex = k,
                   fetchLog = lg @ [\<lparr>call_page = p, results_before = length rs, sent = reqs,
                                     outcome = Inr data\<rparr>]\<rparr>)
                \<lparr>page := Suc p\<rparr>))"
  by (simp add: Let_def split: prod.splits sum.splits)

lemma example_matches:
  "str_includes (removeWhiteSpace (toLowerCase ''Smile Hub'')) (normalizeBrandName ''Bright Smile'') = False"
  "str_includes (removeWhiteSpace (toLowerCase ''Bright Smile Dental London'')) (normalizeBrandName ''Bright Smile'') = True"
  "str_includes (removeWhiteSpace (toLowerCase ''Bright Smile Dental London'')) (normalizeBranchName ''London'') = True"
  "str_includes (removeWhiteSpace (toLowerCase ''City Dental'')) (normalizeBrandName ''Bright Smile'') = False"
  "str_includes (removeWhiteSpace (toLowerCase ''London Teeth'')) (normalizeBrandName ''Bright Smile'') = False"
  by code_simp+

lemma example_fields:
  "Keywords example_row = ''dentist london''" "Brand example_row = ''Bright Smile''"
  "Branch example_row = ''London''"
  "gl example_opts = ''gb''" "hl example_opts = ''en''" "deviceType example_opts = ''desktop''"
  "gl grid_opts = ''gb''" "hl grid_opts = ''en''" "deviceType grid_opts = ''desktop''"
  by (simp_all add: example_row_def example_opts_def grid_opts_def)

lemma example_fetch:
  "searchSerperPlaces (apiKey example_env) (upstream example_env n) qy g h pg d la lo =
     ([\<lparr>q = qy, payload_gl = g, payload_hl = h, payload_page = pg, device = d,
        ll = (case (la, lo) of (Some a, Some b) \<Rightarrow> Some (a, b) | _ \<Rightarrow> None)\<rparr>],
      Inr (Some (if pg = 1 then example_places else [])))"
  by (simp add: searchSerperPlaces_def example_env_def answer_def)

lemma grid_fetch:
  "searchSerperPlaces (apiKey grid_env) (upstream grid_env n) qy g h pg d la lo =
     ([\<lparr>q = qy, payload_gl = g, payload_hl = h, payload_page = pg, device = d,
        ll = (case (la, lo) of (Some a, Some b) \<Rightarrow> Some (a, b) | _ \<Rightarrow> None)\<rparr>],
      Inr (Some (if pg = 1 then grid_places else [])))"
  by (simp add: searchSerperPlaces_def grid_env_def answer_def)

lemma failing_fetch:
  "searchSerperPlaces (apiKey failing_env) (upstream failing_env n) qy g h pg d la lo =
     ([\<lparr>q = qy, payload_gl = g, payload_hl = h, payload_page = pg, device = d,
        ll = (case (la, lo) of (Some a, Some b) \<Rightarrow> Some (a, b) | _ \<Rightarrow> None)\<rparr>],
      if pg = 1 then Inr (Some [listing ''City Dental''])
      else Inl (SerperApiError 503 ''Service Unavailable''))"
  by (simp add: searchSerperPlaces_def failing_env_def answer_def)

lemmas explicit_run =
  numeral_2_eq_2 initial_state_def page_loop_explicit places_of_def classify_place_explicit
  example_matches listing_def title_text_def example_fields example_result_def example_call_def

lemma example_pages:
  "page_loop 2 example_env example_opts example_row None (normalizeBrandName ''Bright Smile'')
     (normalizeBranchName ''London'') initial_state = Some (Completed example_final)"
  by (simp add: explicit_run example_fetch example_places_def example_final_def
      del: page_loop.simps)

lemma example_no_grid: "gridPoints example_opts = [None]"
  by (simp add: gridPoints_def example_opts_def)

lemma initial_state_scopes:
  "initial_state\<lparr>page := 1, queryResultIndex := 1\<rparr> = initial_state"
  "initial_state\<lparr>page := Suc 0, queryResultIndex := Suc 0\<rparr> = initial_state"
  "initial_state\<lparr>foundBrandMatch := False, foundAnyResults := False,
     foundLocalPackMatch := False\<rparr> = initial_state"
  by (simp_all add: initial_state_def)

lemma example_query:
  "process_query 2 example_env example_opts example_row initial_state =
     Some (Completed example_final)"
proof -
  have "foundBrandMatch example_final" by (simp add: example_final_def)
  then show ?thesis
    by (simp add: process_query_def Let_def example_no_grid initial_state_scopes example_fields
        example_pages del: page_loop.simps)
qed

lemma example_run:
  "process_queries 2 example_env example_opts [example_row] initial_state =
     Some (Completed example_final)"
  by (simp add: example_query)

lemma failing_pages:
  "page_loop 2 failing_env example_opts example_row None (normalizeBrandName ''Bright Smile'')
     (normalizeBranchName ''London'') initial_state =
     Some (Failed (SerperApiError 503 ''Service Unavailable'') failing_final)"
  by (simp add: explicit_run failing_fetch failing_final_def del: page_loop.simps)

lemma failing_run:
  "process_queries 2 failing_env example_opts [example_row, example_row] initial_state =
     Some (Failed (SerperApiError 503 ''Service Unavailable'') failing_final)"
  by (simp add: process_query_def Let_def example_no_grid initial_state_scopes example_fields
      failing_pages del: page_loop.simps)

section \<open>The call counter and fetch failures\<close>

lemma initial_log:
  "clean_log (fetchLog initial_state)"
  "totalApiCalls initial_state = length (fetchLog initial_state)"
  by (simp_all add: initial_state_def)

lemma returned_calls_clean: "clean_log l \<Longrightarrow> returned_calls l = l"
  by (induction l) (auto simp: clean_log_def returned_calls_def)

lemma returned_calls_thrown: "outcome c = Inl e \<Longrightarrow> returned_calls (l @ [c]) = returned_calls l"
  by (simp add: returned_calls_def)

text \<open>
  Claim C8, as stated, has the counter equal the number of calls of the fetcher at the
  end of every run, one increment for each call. The increment stands after the call,
  so a call that throws is not counted: the run of two rows whose second page is
  refused made two calls and ends with the counter at 1, the value its last progress
  event carried.
\<close>

theorem every_call_counted_counterexample:
  "process_queries 2 failing_env example_opts [example_row, example_row] initial_state =
     Some (Failed (SerperApiError 503 ''Service Unavailable'') failing_final) \<and>
   totalApiCalls failing_final = 1 \<and> length (fetchLog failing_final) = 2"
  using failing_run by (simp add: failing_final_def)

text \<open>
  Claim C8, amended. The counter \<open>totalApiCalls\<close>, reported as \<open>apiCallsMade\<close>, is
  incremented once for each call of the fetcher that returns, over all rows, grid points
  and pages, the last call of each grid point (the empty page) included: at the end of
  a run it is the number of calls that returned. At the end of a run that completes
  that is the number of all the calls the run made; at the end of a run that a throwing
  call ended it is one less, the throwing call being the only one not counted.
\<close>

theorem api_calls_counted:
  assumes "process_queries fuel env opts rows initial_state = Some oc"
  shows "totalApiCalls (final_state oc) = length (returned_calls (fetchLog (final_state oc))) \<and>
         (case oc of
            Completed s' \<Rightarrow> totalApiCalls s' = length (fetchLog s')
          | Failed e s' \<Rightarrow> Suc (totalApiCalls s') = length (fetchLog s'))"
proof (cases oc)
  case (Completed s')
  with process_queries_log [OF assms initial_log]
  have "clean_log (fetchLog s')" "totalApiCalls s' = length (fetchLog s')"
    by (simp_all add: log_ok_def)
  with Completed show ?thesis by (simp add: returned_calls_clean)
next
  case (Failed e s')
  with process_queries_log [OF assms initial_log]
  obtain l c where "fetchLog s' = l @ [c]" "clean_log l" "outcome c = Inl e"
    "totalApiCalls s' = length l"
    by (auto simp: log_ok_def)
  with Failed show ?thesis by (simp add: returned_calls_thrown returned_calls_clean)
qed

theorem api_calls_counted_witness:
  "process_queries 2 example_env example_opts [example_row] initial_state =
     Some (Completed example_final) \<and>
   totalApiCalls example_final = 2 \<and> length (fetchLog example_final) = 2 \<and>
   length (returned_calls (fetchLog example_final)) = 2 \<and>
   process_queries 2 failing_env example_opts [example_row, example_row] initial_state =
     Some (Failed (SerperApiError 503 ''Service Unavailable'') failing_final) \<and>
   totalApiCalls failing_final = 1 \<and>
   length (returned_calls (fetchLog failing_final)) = 1"
  using api_calls_counted [OF example_run] api_calls_counted [OF failing_run]
    example_run failing_run
  by (simp add: example_final_def failing_final_def)

lemma searchSerperPlaces_no_key:
  "snd (searchSerperPlaces k u qy g h pg d la lo) = Inl ApiKeyNotConfigured \<longleftrightarrow>
     k = None \<or> k = Some []"
  by (auto simp: searchSerperPlaces_def Let_def split: transport.splits option.splits)

lemma searchSerperPlaces_sent:
  "fst (searchSerperPlaces k u qy g h pg d la lo) = [] \<longleftrightarrow> k = None \<or> k = Some []"
  by (auto simp: searchSerperPlaces_def Let_def split: transport.splits option.splits)

lemma searchSerperPlaces_upstream_error:
  "snd (searchSerperPlaces k u qy g h pg d la lo) = Inl (SerperApiError st phrase) \<longleftrightarrow>
     (\<exists>p r. fst (searchSerperPlaces k u qy g h pg d la lo) = [p] \<and> u p = Resolved r \<and>
            \<not> ok r \<and> status r = st \<and> statusText r = phrase)"
  by (auto simp: searchSerperPlaces_def Let_def split: transport.splits option.splits)

text \<open>
  Claim C9. The fetcher throws the configuration error exactly when the API key is
  unset or empty, and exactly then it sends nothing upstream; it throws the upstream
  error with the status and the reason phrase exactly when the request it sent got a
  response that is not \<open>ok\<close>, with that status and phrase. In a run, a call that throws
  ends it: the loop over the pages returns the failure at the call that throws, with
  nothing changed but the log; a completed run logged no throwing call, and a failed run
  reports the error of its last logged call, every call before it returned, and no
  result was appended after that call was made.
\<close>

theorem fetch_failures:
  "(snd (searchSerperPlaces k u qy g h pg d la lo) = Inl ApiKeyNotConfigured \<longleftrightarrow>
      k = None \<or> k = Some []) \<and>
   (fst (searchSerperPlaces k u qy g h pg d la lo) = [] \<longleftrightarrow> k = None \<or> k = Some []) \<and>
   (snd (searchSerperPlaces k u qy g h pg d la lo) = Inl (SerperApiError st phrase) \<longleftrightarrow>
      (\<exists>p r. fst (searchSerperPlaces k u qy g h pg d la lo) = [p] \<and> u p = Resolved r \<and>
             \<not> ok r \<and> status r = st \<and> statusText r = phrase)) \<and>
   (snd (searchSerperPlaces (apiKey env) (upstream env (length (fetchLog s))) (Keywords row)
           (gl opts) (hl opts) (page s) (deviceType opts)
           (map_option lat gp) (map_option lng gp)) = Inl e \<longrightarrow>
      page_loop (Suc n) env opts row gp nb nbr s =
        Some (Failed e (s\<lparr>fetchLog := fetchLog s @
          [\<lparr>call_page = page s, results_before = length (allResults s),
            sent = fst (searchSerperPlaces (apiKey env) (upstream env (length (fetchLog s)))
                     (Keywords row) (gl opts) (hl opts) (page s) (deviceType opts)
                     (map_option lat gp) (map_option lng gp)),
            outcome = Inl e\<rparr>]\<rparr>))) \<and>
   (process_queries fuel env opts rows initial_state = Some oc \<longrightarrow>
      (case oc of
         Completed s' \<Rightarrow> clean_log (fetchLog s')
       | Failed e' s' \<Rightarrow>
           \<exists>l c. fetchLog s' = l @ [c] \<and> clean_log l \<and> outcome c = Inl e' \<and>
                 results_before c = length (allResults s')))"
proof -
  have run: "process_queries fuel env opts rows initial_state = Some oc \<longrightarrow>
      (case oc of
         Completed s' \<Rightarrow> clean_log (fetchLog s')
       | Failed e' s' \<Rightarrow>
           \<exists>l c. fetchLog s' = l @ [c] \<and> clean_log l \<and> outcome c = Inl e' \<and>
                 results_before c = length (allResults s'))"
  proof
    assume "process_queries fuel env opts rows initial_state = Some oc"
    from process_queries_log [OF this initial_log] show "case oc of
         Completed s' \<Rightarrow> clean_log (fetchLog s')
       | Failed e' s' \<Rightarrow>
           \<exists>l c. fetchLog s' = l @ [c] \<and> clean_log l \<and> outcome c = Inl e' \<and>
                 results_before c = length (allResults s')"
      by (auto simp: log_ok_def split: run_outcome.splits)
  qed
  have step: "snd (searchSerperPlaces (apiKey env) (upstream env (length (fetchLog s)))
           (Keywords row) (gl opts) (hl opts) (page s) (deviceType opts)
           (map_option lat gp) (map_option lng gp)) = Inl e \<longrightarrow>
      page_loop (Suc n) env opts row gp nb nbr s =
        Some (Failed e (s\<lparr>fetchLog := fetchLog s @
          [\<lparr>call_page = page s, results_before = length (allResults s),
            sent = fst (searchSerperPlaces (apiKey env) (upstream env (length (fetchLog s)))
                     (Keywords row) (gl opts) (hl opts) (page s) (deviceType opts)
                     (map_option lat gp) (map_option lng gp)),
            outcome = Inl e\<rparr>]\<rparr>))"
    by (cases "searchSerperPlaces (apiKey env) (upstream env (length (fetchLog s)))
           (Keywords row) (gl opts) (hl opts) (page s) (deviceType opts)
           (map_option lat gp) (map_option lng gp)") simp
  show ?thesis
    using searchSerperPlaces_no_key [of k u qy g h pg d la lo]
      searchSerperPlaces_sent [of k u qy g h pg d la lo]
      searchSerperPlaces_upstream_error [of k u qy g h pg d la lo st phrase]
      step run
    by (intro conjI)
qed

lemma keyless_fetch:
  "searchSerperPlaces (apiKey keyless_env) v qy g h pg d la lo = ([], Inl ApiKeyNotConfigured)"
  by (simp add: searchSerperPlaces_def keyless_env_def)

theorem fetch_failures_witness:
  "snd (searchSerperPlaces (apiKey keyless_env) (upstream keyless_env 0) ''dentist london''
          ''gb'' ''en'' 1 ''desktop'' None None) = Inl ApiKeyNotConfigured \<and>
   page_loop (Suc 0) keyless_env example_opts example_row None [] [] initial_state =
     Some (Failed ApiKeyNotConfigured (initial_state\<lparr>fetchLog :=
       [\<lparr>call_page = 1, results_before = 0, sent = [], outcome = Inl ApiKeyNotConfigured\<rparr>]\<rparr>)) \<and>
   process_queries 2 failing_env example_opts [example_row, example_row] initial_state =
     Some (Failed (SerperApiError 503 ''Service Unavailable'') failing_final) \<and>
   (\<exists>l c. fetchLog failing_final = l @ [c] \<and> clean_log l \<and>
          outcome c = Inl (SerperApiError 503 ''Service Unavailable'') \<and>
          results_before c = length (allResults failing_final)) \<and>
   length (fetchLog failing_final) = 2 \<and> length (allResults failing_final) = 1"
  using fetch_failures [where fuel = 2 and env = failing_env and opts = example_opts
      and rows = "[example_row, example_row]"
      and oc = "Failed (SerperApiError 503 ''Service Unavailable'') failing_final"]
    fetch_failures [where env = keyless_env and opts = example_opts and row = example_row
      and s = initial_state and gp = None and e = ApiKeyNotConfigured and n = 0
      and nb = "[]" and nbr = "[]"]
    failing_run
  by (simp add: failing_final_def keyless_fetch example_fields initial_state_def)

section \<open>Properties of every record of a run\<close>

lemma initial_results: "list_all P (allResults initial_state)"
  by (simp add: initial_state_def)

text \<open>
  Claim C4. Every record a run appends for a listing (a record whose
  \<open>query_result_number\<close> is a number \<open>n\<close>) has \<open>is_local_pack\<close> true exactly when
  \<open>n \<le> 3\<close>, and its \<open>local_pack_position\<close> is \<open>n\<close> when it is in the local pack and
  \<^verbatim>\<open>null\<close> otherwise. This holds of the results of a completed and of a failed run.
\<close>

theorem local_pack_invariant:
  assumes run: "process_queries fuel env opts rows initial_state = Some oc"
    and r: "r \<in> set (allResults (final_state oc))"
    and n: "query_result_number r = Rank n"
  shows "is_local_pack r = Some (n \<le> 3) \<and>
         local_pack_position r = Some (if n \<le> 3 then Value n else Null)"
proof -
  let ?P = "\<lambda>r. \<forall>n. query_result_number r = Rank n \<longrightarrow>
      is_local_pack r = Some (n \<le> 3) \<and>
      local_pack_position r = Some (if n \<le> 3 then Value n else Null)"
  have "list_all ?P (allResults (final_state oc))"
  proof (rule process_queries_all [where P = ?P, OF _ _ run initial_results])
    show "?P (emitted opts row gp (normalizeBrandName (Brand row))
        (normalizeBranchName (Branch row)) pl s0)" for row gp pl s0
      by (simp add: emitted_fields)
    show "?P (not_found row)" for row
      by (simp add: not_found_def)
  qed
  with r n show ?thesis by (auto simp: list_all_iff)
qed

theorem local_pack_invariant_witness:
  "process_queries 2 example_env example_opts [example_row] initial_state =
     Some (Completed example_final) \<and>
   example_result ''London Teeth'' 4 False False Null None \<in> set (allResults example_final) \<and>
   query_result_number (example_result ''London Teeth'' 4 False False Null None) = Rank 4 \<and>
   is_local_pack (example_result ''London Teeth'' 4 False False Null None) = Some False \<and>
   local_pack_position (example_result ''London Teeth'' 4 False False Null None) = Some Null"
proof -
  have r: "example_result ''London Teeth'' 4 False False Null None
      \<in> set (allResults (final_state (Completed example_final)))"
    by (simp add: example_final_def)
  have n: "query_result_number (example_result ''London Teeth'' 4 False False Null None) = Rank 4"
    by (simp add: example_result_def)
  from local_pack_invariant [OF example_run r n] example_run r n show ?thesis by simp
qed


lemma example_sublists:
  "sublist (removeWhiteSpace (toLowerCase ''Bright Smile''))
     (removeWhiteSpace (toLowerCase ''Bright Smile Dental London''))"
  "sublist (filter isAlphanumeric (toLowerCase ''London''))
     (removeWhiteSpace (toLowerCase ''Bright Smile Dental London''))"
  by code_simp+


section \<open>Rank positions\<close>

text \<open>
  Claim C5. The loop over the pages of one grid point is entered with \<open>page\<close> and
  \<open>queryResultIndex\<close> set to 1. Whatever it returns, the records it appended carry, in
  the order they were appended, the ranks 1, 2, 3, ... without a gap: the counter runs on
  from one page to the next.
\<close>

theorem ranks_within_grid_point:
  assumes "page_loop fuel env opts row gridPoint normBrand normBranch
             (s\<lparr>page := 1, queryResultIndex := 1\<rparr>) = Some oc"
  shows "\<exists>new. allResults (final_state oc) = allResults s @ new \<and>
           map query_result_number new = map Rank [1..<Suc (length new)]"
proof -
  from page_loop_results [where P = "\<lambda>r. True", OF _ assms]
  obtain new where "allResults (final_state oc) = allResults s @ new" "numbered_from 1 new"
    by auto
  then show ?thesis by (auto simp: numbered_from_def)
qed

theorem ranks_within_grid_point_witness:
  "page_loop 2 example_env example_opts example_row None (normalizeBrandName ''Bright Smile'')
     (normalizeBranchName ''London'') (initial_state\<lparr>page := 1, queryResultIndex := 1\<rparr>) =
     Some (Completed example_final) \<and>
   map query_result_number (allResults example_final) = [Rank 1, Rank 2, Rank 3, Rank 4]"
proof -
  have run: "page_loop 2 example_env example_opts example_row None
      (normalizeBrandName ''Bright Smile'') (normalizeBranchName ''London'')
      (initial_state\<lparr>page := 1, queryResultIndex := 1\<rparr>) = Some (Completed example_final)"
    by (simp only: initial_state_scopes example_pages)
  from ranks_within_grid_point [OF run] run show ?thesis
    by (simp add: example_final_def example_result_def)
qed

section \<open>The layout of the grid\<close>

lemma concat_map_product:
  "concat (map (\<lambda>i. map (f i) ys) xs) = map (\<lambda>(i, j). f i j) (List.product xs ys)"
  by (induction xs) (simp_all add: o_def)

lemma generateGeoGrid_product:
  "generateGeoGrid cLat cLng rKm n =
     map (\<lambda>(i, j).
           \<lparr>lat = cLat - rKm / 111.32 +
                   real i * (rKm * 2 / real_of_int (n - 1) / 111.32),
            lng = cLng - rKm / (111.32 * cos (cLat * pi / 180)) +
                   real j * (rKm * 2 / real_of_int (n - 1) /
                             (111.32 * cos (cLat * pi / 180)))\<rparr>)
       (List.product [0..<nat n] [0..<nat n])"
  unfolding generateGeoGrid_def Let_def by (rule concat_map_product)

lemma length_generateGeoGrid:
  "length (generateGeoGrid cLat cLng rKm n) = nat n * nat n"
  by (simp add: generateGeoGrid_product)

lemma nth_generateGeoGrid:
  assumes "k < nat n * nat n"
  shows "generateGeoGrid cLat cLng rKm n ! k =
     \<lparr>lat = cLat - rKm / 111.32 +
             real (k div nat n) * (rKm * 2 / real_of_int (n - 1) / 111.32),
      lng = cLng - rKm / (111.32 * cos (cLat * pi / 180)) +
             real (k mod nat n) * (rKm * 2 / real_of_int (n - 1) /
                       (111.32 * cos (cLat * pi / 180)))\<rparr>"
proof -
  have d: "k div nat n < nat n"
    using assms by (simp add: less_mult_imp_div_less)
  have m: "k mod nat n < nat n"
    using assms by (cases "nat n = 0") auto
  have "List.product [0..<nat n] [0..<nat n] ! k =
      (k div nat n, k mod nat n)"
    using assms d m by (simp add: product_nth)
  then show ?thesis
    using assms by (simp add: generateGeoGrid_product)
qed

text \<open>
  Claim C6. For a grid size of at least 2 the grid has grid size squared points, and its
  first point is the corner
  \<open>(centerLat - radiusKm / 111.32, centerLng - radiusKm / (111.32 * cos (centerLat * pi / 180)))\<close>.
\<close>

theorem generateGeoGrid_size_and_corner:
  assumes "2 \<le> n"
  shows "int (length (generateGeoGrid cLat cLng rKm n)) =
           n * n \<and>
         generateGeoGrid cLat cLng rKm n ! 0 =
           \<lparr>lat = cLat - rKm / 111.32,
            lng = cLng - rKm / (111.32 * cos (cLat * pi / 180))\<rparr>"
proof -
  have "0 < nat n * nat n" using assms by simp
  from nth_generateGeoGrid [OF this] have
    "generateGeoGrid cLat cLng rKm n ! 0 =
           \<lparr>lat = cLat - rKm / 111.32,
            lng = cLng - rKm / (111.32 * cos (cLat * pi / 180))\<rparr>"
    by simp
  moreover have "int (length (generateGeoGrid cLat cLng rKm n)) =
           n * n"
    using assms by (simp add: length_generateGeoGrid)
  ultimately show ?thesis by simp
qed

theorem generateGeoGrid_size_and_corner_witness:
  "(2::int) \<le> 2 \<and> int (length (generateGeoGrid 0 0 111.32 2)) = 4 \<and>
   generateGeoGrid 0 0 111.32 2 ! 0 = \<lparr>lat = - 1, lng = - 1\<rparr>"
  using generateGeoGrid_size_and_corner [of 2 0 0 "111.32"] by simp

text \<open>
  Claim C7, as stated, has consecutive points one latitude step apart and the longitude
  advancing after a full column. The outer loop runs over the latitudes and the inner one
  over the longitudes: in the grid of two by two points around (0, 0) the second point
  has the latitude of the first and the next longitude.
\<close>

theorem latitude_first_counterexample:
  "generateGeoGrid 0 0 111.32 2 =
     [\<lparr>lat = - 1, lng = - 1\<rparr>, \<lparr>lat = - 1, lng = 1\<rparr>, \<lparr>lat = 1, lng = - 1\<rparr>,
      \<lparr>lat = 1, lng = 1\<rparr>]"
  by (simp add: generateGeoGrid_def upt_rec)

text \<open>
  Claim C7, amended. For a grid size of at least 2 the grid starts at the south-west
  corner and is laid out row by row: a point that does not start a new row has the
  latitude of the point before it and lies one longitude step further east, and a point
  that starts a new row lies one latitude step further north, back at the longitude of
  the first point. So the longitude advances inside a row of grid size points, and the
  latitude after a full row.
\<close>

theorem generateGeoGrid_layout:
  assumes "2 \<le> n" and "int (Suc k) < n * n"
  shows "generateGeoGrid cLat cLng rKm n ! 0 =
           \<lparr>lat = cLat - rKm / 111.32,
            lng = cLng - rKm / (111.32 * cos (cLat * pi / 180))\<rparr> \<and>
         (if Suc k mod nat n \<noteq> 0
          then lat (generateGeoGrid cLat cLng rKm n ! Suc k) =
                 lat (generateGeoGrid cLat cLng rKm n ! k) \<and>
               lng (generateGeoGrid cLat cLng rKm n ! Suc k) =
                 lng (generateGeoGrid cLat cLng rKm n ! k) +
                 rKm * 2 / real_of_int (n - 1) /
                   (111.32 * cos (cLat * pi / 180))
          else lat (generateGeoGrid cLat cLng rKm n ! Suc k) =
                 lat (generateGeoGrid cLat cLng rKm n ! k) +
                 rKm * 2 / real_of_int (n - 1) / 111.32 \<and>
               lng (generateGeoGrid cLat cLng rKm n ! Suc k) =
                 lng (generateGeoGrid cLat cLng rKm n ! 0))"
proof -
  have "int (nat n * nat n) = n * n" using assms(1) by simp
  with assms(2) have s: "Suc k < nat n * nat n" by linarith
  then have k: "k < nat n * nat n" by simp
  have z: "0 < nat n * nat n" using assms(1) by simp
  have d: "Suc k div nat n =
      (if Suc k mod nat n = 0 then Suc (k div nat n) else k div nat n)"
    by (rule div_Suc)
  have m: "Suc k mod nat n \<noteq> 0 \<Longrightarrow> Suc k mod nat n = Suc (k mod nat n)"
    by (simp add: mod_Suc split: if_splits)
  have first: "generateGeoGrid cLat cLng rKm n ! 0 =
           \<lparr>lat = cLat - rKm / 111.32,
            lng = cLng - rKm / (111.32 * cos (cLat * pi / 180))\<rparr>"
    by (simp add: nth_generateGeoGrid [OF z])
  show ?thesis
  proof (cases "Suc k mod nat n = 0")
    case True
    with d have "Suc k div nat n = Suc (k div nat n)" by simp
    with True first show ?thesis
      by (simp add: nth_generateGeoGrid [OF s] nth_generateGeoGrid [OF k] distrib_right add_divide_distrib)
  next
    case False
    with d m have "Suc k div nat n = k div nat n" "Suc k mod nat n = Suc (k mod nat n)"
      by simp_all
    with False first show ?thesis
      by (simp add: nth_generateGeoGrid [OF s] nth_generateGeoGrid [OF k] distrib_right add_divide_distrib)
  qed
qed

theorem generateGeoGrid_layout_witness:
  "(2::int) \<le> 2 \<and> int (Suc 0) < 2 * 2 \<and> Suc 0 mod nat 2 \<noteq> 0 \<and>
   generateGeoGrid 0 0 111.32 2 ! 0 = \<lparr>lat = - 1, lng = - 1\<rparr> \<and>
   lat (generateGeoGrid 0 0 111.32 2 ! Suc 0) = lat (generateGeoGrid 0 0 111.32 2 ! 0) \<and>
   lng (generateGeoGrid 0 0 111.32 2 ! Suc 0) = lng (generateGeoGrid 0 0 111.32 2 ! 0) + 2"
  using generateGeoGrid_layout [of 2 0 0 0 "111.32"] by simp

section \<open>Rank positions across grid points\<close>

lemma grid_points: "gridPoints grid_opts =
    [Some south_west, Some south_east, Some north_west, Some north_east]"
  by (simp add: gridPoints_def grid_opts_def generateGeoGrid_def upt_rec
      south_west_def south_east_def north_west_def north_east_def)

lemma corner_fields:
  "lat south_west = - 1" "lng south_west = - 1" "lat south_east = - 1" "lng south_east = 1"
  "lat north_west = 1" "lng north_west = - 1" "lat north_east = 1" "lng north_east = 1"
  by (simp_all add: south_west_def south_east_def north_west_def north_east_def)

lemma grid_query:
  "process_query 2 grid_env grid_opts example_row initial_state = Some (Completed grid_final)"
  by (simp add: process_query_def Let_def grid_points explicit_run grid_fetch grid_places_def
      grid_final_def grid_block_def del: page_loop.simps)

text \<open>
  Claim C1, as stated, has the first record of grid point \<open>k + 1\<close> continue the numbering
  of grid point \<open>k\<close>. The handler declares \<open>queryResultIndex\<close> inside the loop over the
  grid points: on the grid of four points, with two listings for each, the ranks are
  1, 2 four times over.
\<close>

theorem rank_continues_counterexample:
  "map_option (map query_result_number \<circ> allResults \<circ> final_state)
     (process_query 2 grid_env grid_opts example_row initial_state) =
   Some [Rank 1, Rank 2, Rank 1, Rank 2, Rank 1, Rank 2, Rank 1, Rank 2]"
  by (simp add: grid_query grid_final_def grid_block_def example_result_def)

text \<open>
  Claim C1, amended. The rank counter is set to 1 at every grid point. The records a
  completed row appended are one block for each grid point, in the order of the points,
  followed by the record for a row without a match if there is one; the records of a
  block carry the coordinates of its point and the ranks 1, 2, 3, ... in order. The rank
  increases across the pages of one grid point and starts again at the next.
\<close>

theorem rank_restarts_at_each_grid_point:
  assumes "process_query fuel env opts row s = Some (Completed s')"
  shows "\<exists>blocks rest.
     allResults s' = allResults s @ concat blocks @ rest \<and>
     list_all2 (\<lambda>gp b. map query_result_number b = map Rank [1..<Suc (length b)] \<and>
                 list_all (\<lambda>r. search_latitude r = map_option lat gp \<and>
                                search_longitude r = map_option lng gp) b)
       (gridPoints opts) blocks \<and>
     list_all (\<lambda>r. query_result_number r = NA) rest"
proof -
  let ?P = "\<lambda>gp r. search_latitude r = map_option lat gp \<and> search_longitude r = map_option lng gp"
  from process_query_results [where P = ?P, OF _ assms]
  obtain blocks where b: "allResults (final_state (Completed s')) =
           allResults s @ concat blocks @
             (if (\<exists>s''. Completed s' = Completed s'') \<and> \<not> list_ex brand_match (concat blocks)
              then [not_found row] else [])"
       "list_all2 (\<lambda>gp b. numbered_from 1 b \<and> list_all (?P gp) b)
         (take (length blocks) (gridPoints opts)) blocks"
       "(\<exists>s''. Completed s' = Completed s'') \<longrightarrow> length blocks = length (gridPoints opts)"
    by (auto simp: emitted_fields)
  let ?rest = "if \<not> list_ex brand_match (concat blocks) then [not_found row] else []"
  have "allResults s' = allResults s @ concat blocks @ ?rest"
    using b(1) by simp
  moreover have "list_all2 (\<lambda>gp b. map query_result_number b = map Rank [1..<Suc (length b)] \<and>
                 list_all (?P gp) b) (gridPoints opts) blocks"
    using b(2,3) by (simp add: numbered_from_def)
  moreover have "list_all (\<lambda>r. query_result_number r = NA) ?rest"
    by (simp add: not_found_def)
  ultimately show ?thesis by (intro exI [of _ blocks] exI [of _ ?rest] conjI)
qed

theorem rank_restarts_at_each_grid_point_witness:
  "process_query 2 grid_env grid_opts example_row initial_state = Some (Completed grid_final) \<and>
   (\<exists>blocks rest.
     allResults grid_final = concat blocks @ rest \<and>
     list_all2 (\<lambda>gp b. map query_result_number b = map Rank [1..<Suc (length b)] \<and>
                 list_all (\<lambda>r. search_latitude r = map_option lat gp \<and>
                                search_longitude r = map_option lng gp) b)
       [Some south_west, Some south_east, Some north_west, Some north_east] blocks \<and>
     list_all (\<lambda>r. query_result_number r = NA) rest)"
  using rank_restarts_at_each_grid_point [OF grid_query] grid_query
  by (simp add: grid_points initial_state_def)

section \<open>The record for a row without a match\<close>

lemma page_loop_empty:
  assumes e: "serves_empty_pages env" and p: "page s = 1"
  shows "\<exists>s'. page_loop (Suc n) env opts row gp nb nbr s = Some (Completed s') \<and>
           allResults s' = allResults s \<and> foundBrandMatch s' = foundBrandMatch s"
proof -
  let ?p = "\<lparr>q = Keywords row, payload_gl = gl opts, payload_hl = hl opts, payload_page = 1,
             device = deviceType opts,
             ll = (case (map_option lat gp, map_option lng gp) of
                     (Some la, Some lo) \<Rightarrow> Some (la, lo) | _ \<Rightarrow> None)\<rparr>"
  from e have "\<forall>n p. payload_page p = 1 \<longrightarrow>
      (\<exists>r d. upstream env n p = Resolved r \<and> ok r \<and> json r = Some d \<and> places_of d = [])"
    by (simp add: serves_empty_pages_def)
  then have "payload_page ?p = 1 \<longrightarrow>
      (\<exists>r d. upstream env (length (fetchLog s)) ?p = Resolved r \<and> ok r \<and> json r = Some d \<and>
             places_of d = [])"
    by (rule allE [where x = "length (fetchLog s)"]) (rule allE [where x = ?p], assumption)
  then have "\<exists>r d. upstream env (length (fetchLog s)) ?p = Resolved r \<and> ok r \<and>
      json r = Some d \<and> places_of d = []"
    by simp
  then obtain r d where u: "upstream env (length (fetchLog s)) ?p = Resolved r" "ok r"
      "json r = Some d" "places_of d = []"
    by blast
  from e have k: "apiKey env \<noteq> None" "apiKey env \<noteq> Some []"
    by (simp_all add: serves_empty_pages_def)
  have "searchSerperPlaces (apiKey env) (upstream env (length (fetchLog s))) (Keywords row)
      (gl opts) (hl opts) (page s) (deviceType opts) (map_option lat gp) (map_option lng gp) =
      ([?p], Inr d)"
    using u k p by (simp add: searchSerperPlaces_def Let_def)
  then show ?thesis using u(4) by simp
qed

lemma grid_loop_empty:
  assumes e: "serves_empty_pages env"
  shows "\<exists>s'. grid_loop (Suc n) env opts row nb nbr gps s = Some (Completed s') \<and>
           allResults s' = allResults s \<and> foundBrandMatch s' = foundBrandMatch s"
proof (induction gps arbitrary: s)
  case Nil
  show ?case by simp
next
  case (Cons gp gps)
  let ?s = "s\<lparr>page := 1, queryResultIndex := 1\<rparr>"
  have "page ?s = 1" by simp
  from page_loop_empty [OF e this, of n opts row gp nb nbr] obtain s1 where
    s1: "page_loop (Suc n) env opts row gp nb nbr ?s = Some (Completed s1)"
      "allResults s1 = allResults s" "foundBrandMatch s1 = foundBrandMatch s"
    by auto
  from Cons.IH [of s1] obtain s' where
    "grid_loop (Suc n) env opts row nb nbr gps s1 = Some (Completed s')"
    "allResults s' = allResults s1" "foundBrandMatch s' = foundBrandMatch s1"
    by blast
  with s1 show ?case by (simp del: page_loop.simps)
qed

lemma process_query_empty:
  assumes e: "serves_empty_pages env"
  shows "\<exists>s'. process_query (Suc n) env opts row s = Some (Completed s') \<and>
           allResults s' = allResults s @ [not_found row]"
proof -
  let ?s0 = "s\<lparr>foundBrandMatch := False, foundAnyResults := False, foundLocalPackMatch := False\<rparr>"
  from grid_loop_empty [OF e, of n opts row "normalizeBrandName (Brand row)"
      "normalizeBranchName (Branch row)" "gridPoints opts" ?s0]
  obtain s1 where "grid_loop (Suc n) env opts row (normalizeBrandName (Brand row))
      (normalizeBranchName (Branch row)) (gridPoints opts) ?s0 = Some (Completed s1)"
    "allResults s1 = allResults s" "\<not> foundBrandMatch s1"
    by auto
  then show ?thesis
    by (simp add: process_query_def Let_def del: grid_loop.simps page_loop.simps)
qed

lemma not_found_fields:
  "title (not_found row) = Some ''Brand not found''" "\<not> brand_match (not_found row)"
  "query_result_number (not_found row) = NA"
  by (simp_all add: not_found_def)

text \<open>
  Claim C3. A row that completes leaves the records of its listings followed by exactly
  one record \<open>not_found\<close> when none of them is a brand match, and by nothing when one
  is, however many grid points were searched. That record has the title
  \<^verbatim>\<open>Brand not found\<close>, is no brand match and has no numeric rank. When the upstream
  has no listing on any first page, the row completes (one page for each grid point is
  enough) and leaves that one record and no other.
\<close>

theorem not_found_exactly_once:
  "(process_query fuel env opts row s = Some (Completed s') \<longrightarrow>
      (\<exists>obs. list_all (\<lambda>r. query_result_number r \<noteq> NA) obs \<and>
             allResults s' = allResults s @ obs @
               (if list_ex brand_match obs then [] else [not_found row]))) \<and>
   title (not_found row) = Some ''Brand not found'' \<and>
   \<not> brand_match (not_found row) \<and>
   query_result_number (not_found row) = NA \<and>
   (serves_empty_pages env \<longrightarrow>
      (\<exists>s''. process_query (Suc fuel) env opts row s = Some (Completed s'') \<and>
             allResults s'' = allResults s @ [not_found row]))"
proof -
  have "\<exists>obs. list_all (\<lambda>r. query_result_number r \<noteq> NA) obs \<and>
             allResults s' = allResults s @ obs @
               (if list_ex brand_match obs then [] else [not_found row])"
    if run: "process_query fuel env opts row s = Some (Completed s')"
  proof -
    let ?P = "\<lambda>gp r. query_result_number r \<noteq> NA"
    from process_query_results [where P = ?P, OF _ run]
    obtain blocks where b: "allResults (final_state (Completed s')) =
           allResults s @ concat blocks @
             (if (\<exists>s''. Completed s' = Completed s'') \<and> \<not> list_ex brand_match (concat blocks)
              then [not_found row] else [])"
       "list_all2 (\<lambda>gp b. numbered_from 1 b \<and> list_all (?P gp) b)
         (take (length blocks) (gridPoints opts)) blocks"
      by (auto simp: emitted_fields)
    from b(2) have "list_all (\<lambda>b. numbered_from 1 b \<and> list_all (?P None) b) blocks"
      by (rule list_all2_right)
    then have "list_all (list_all (?P None)) blocks" by (simp add: list_all_iff)
    then have "list_all (?P None) (concat blocks)" by (rule list_all_concat)
    moreover have "allResults s' = allResults s @ concat blocks @
               (if list_ex brand_match (concat blocks) then [] else [not_found row])"
      using b(1) by simp
    ultimately show ?thesis by (intro exI [of _ "concat blocks"] conjI)
  qed
  moreover have "\<exists>s''. process_query (Suc fuel) env opts row s = Some (Completed s'') \<and>
             allResults s'' = allResults s @ [not_found row]"
    if "serves_empty_pages env"
    using that by (rule process_query_empty)
  ultimately show ?thesis
    using not_found_fields [of row] by (intro conjI impI)
qed

lemma empty_env_serves: "serves_empty_pages empty_env"
  by (simp add: serves_empty_pages_def empty_env_def answer_def places_of_def)

theorem not_found_exactly_once_witness:
  "process_query 2 example_env example_opts example_row initial_state =
     Some (Completed example_final) \<and>
   (\<exists>obs. list_all (\<lambda>r. query_result_number r \<noteq> NA) obs \<and>
          allResults example_final = obs @
            (if list_ex brand_match obs then [] else [not_found example_row])) \<and>
   serves_empty_pages empty_env \<and>
   (\<exists>s''. process_query (Suc 0) empty_env grid_opts example_row initial_state =
            Some (Completed s'') \<and>
          allResults s'' = [not_found example_row])"
  using not_found_exactly_once [of 2 example_env example_opts example_row initial_state
      example_final]
    not_found_exactly_once [of 0 empty_env grid_opts example_row initial_state]
    example_query empty_env_serves
  by (simp add: initial_state_def)

section \<open>Names that normalise to nothing\<close>

text \<open>
  Claim C10. A branch name normalises to the empty string exactly when it has no
  alphanumeric character, and a brand name exactly when it is white space only. For a
  branch that normalises to the empty string, the record appended for a listing is a
  brand match exactly when the title contains the brand; for such a brand, exactly when
  the title contains the branch; and when both normalise to the empty string every
  listing is a brand match.
\<close>

theorem empty_names_match:
  "(normalizeBranchName (Branch row) = [] \<longleftrightarrow> list_all (\<lambda>c. \<not> isAlphanumeric c) (Branch row)) \<and>
   (normalizeBrandName (Brand row) = [] \<longleftrightarrow> list_all isWhiteSpace (Brand row)) \<and>
   (normalizeBranchName (Branch row) = [] \<longrightarrow>
      (brand_match (emitted opts row gp (normalizeBrandName (Brand row))
          (normalizeBranchName (Branch row)) pl s) \<longleftrightarrow>
       sublist (normalizeBrandName (Brand row))
         (removeWhiteSpace (toLowerCase (title_text (title pl)))))) \<and>
   (normalizeBrandName (Brand row) = [] \<longrightarrow>
      (brand_match (emitted opts row gp (normalizeBrandName (Brand row))
          (normalizeBranchName (Branch row)) pl s) \<longleftrightarrow>
       sublist (normalizeBranchName (Branch row))
         (removeWhiteSpace (toLowerCase (title_text (title pl)))))) \<and>
   (normalizeBranchName (Branch row) = [] \<and> normalizeBrandName (Brand row) = [] \<longrightarrow>
      brand_match (emitted opts row gp (normalizeBrandName (Brand row))
          (normalizeBranchName (Branch row)) pl s))"
proof -
  have "normalizeBranchName (Branch row) = [] \<longleftrightarrow>
      list_all (\<lambda>c. \<not> isAlphanumeric c) (Branch row)"
    by (simp add: normalizeBranchName_empty list_all_iff)
  moreover have "normalizeBrandName (Brand row) = [] \<longleftrightarrow> list_all isWhiteSpace (Brand row)"
    by (simp add: normalizeBrandName_empty list_all_iff)
  moreover have "normalizeBranchName (Branch row) = [] \<longrightarrow>
      (brand_match (emitted opts row gp (normalizeBrandName (Brand row))
          (normalizeBranchName (Branch row)) pl s) \<longleftrightarrow>
       sublist (normalizeBrandName (Brand row))
         (removeWhiteSpace (toLowerCase (title_text (title pl)))))"
    by (simp add: emitted_fields str_includes_sublist)
  moreover have "normalizeBrandName (Brand row) = [] \<longrightarrow>
      (brand_match (emitted opts row gp (normalizeBrandName (Brand row))
          (normalizeBranchName (Branch row)) pl s) \<longleftrightarrow>
       sublist (normalizeBranchName (Branch row))
         (removeWhiteSpace (toLowerCase (title_text (title pl)))))"
    by (simp add: emitted_fields str_includes_sublist)
  moreover have "normalizeBranchName (Branch row) = [] \<and> normalizeBrandName (Brand row) = [] \<longrightarrow>
      brand_match (emitted opts row gp (normalizeBrandName (Brand row))
          (normalizeBranchName (Branch row)) pl s)"
    by (simp add: emitted_fields str_includes_sublist)
  ultimately show ?thesis by (intro conjI)
qed

lemma blank_names:
  "normalizeBranchName ''-'' = []" "normalizeBrandName '' '' = []"
  by code_simp+

theorem empty_names_match_witness:
  "normalizeBranchName (Branch blank_row) = [] \<and> normalizeBrandName (Brand blank_row) = [] \<and>
   brand_match (emitted example_opts blank_row None (normalizeBrandName (Brand blank_row))
     (normalizeBranchName (Branch blank_row)) (listing ''City Dental'') initial_state)"
proof -
  have b: "normalizeBranchName (Branch blank_row) = []" "normalizeBrandName (Brand blank_row) = []"
    by (simp_all add: blank_row_def blank_names)
  with empty_names_match [of blank_row example_opts None "listing ''City Dental''" initial_state]
  show ?thesis by blast
qed

end
